theory Spec2Isabelle
  imports Complex_Main "HOL-Library.AList" "HOL-Library.Multiset"
    "HOL-Library.Char_ord" "HOL-Library.List_Lexorder"
begin

section \<open>Python values shared by the four exercises\<close>

text \<open>
  Strings are lists of characters; a character stands for a code point below 256.
  Exceptions are values of the type \<open>error\<close>; a function that can raise returns
  \<open>error + 'a\<close> with \<open>Inl\<close> for the exception. \<open>Bloqueado\<close> is not an
  exception: it stands for a call that never returns (a receive on an empty pipe whose
  sender is still open, a pool whose task never completes).
\<close>

datatype error = EOFError | OSError | ZeroDivisionError | FileNotFoundError | ValueError
  | TypeError | KeyError | Bloqueado

text \<open>
  A Python float is NaN, an infinity or a finite number. Comparisons are the IEEE ones:
  every comparison with NaN is false.
\<close>

datatype pyfloat = NaN | NInf | Fin real | PInf

fun fgt :: "pyfloat \<Rightarrow> pyfloat \<Rightarrow> bool" where
  "fgt NaN _ = False"
| "fgt _ NaN = False"
| "fgt NInf _ = False"
| "fgt _ NInf = True"
| "fgt PInf PInf = False"
| "fgt PInf (Fin _) = True"
| "fgt (Fin _) PInf = False"
| "fgt (Fin a) (Fin b) = (b < a)"

text \<open>
  The builtins of Python that parse, round and print numbers are not code of the
  repository. They are parameters of the model: \<open>py_int s\<close> is \<open>int(s)\<close> and
  \<open>py_float s\<close> is \<open>float(s)\<close>, with \<open>None\<close> for \<open>ValueError\<close>;
  \<open>fadd\<close>, \<open>fsub\<close> and \<open>fdiv\<close> are the float operations \<open>+\<close>, \<open>-\<close> and
  \<open>/\<close> (the last one for a divisor that is not zero); \<open>round2 x\<close> is
  \<open>round(x, 2)\<close>; \<open>fmt_2f\<close>, \<open>fmt_6f\<close> and \<open>fstr\<close> are the formats
  \<open>{x:.2f}\<close>, \<open>{x:.6f}\<close> and \<open>{x}\<close>.
\<close>

record builtins =
  py_int :: "string \<Rightarrow> int option"
  py_float :: "string \<Rightarrow> pyfloat option"
  fadd :: "pyfloat \<Rightarrow> pyfloat \<Rightarrow> pyfloat"
  fsub :: "pyfloat \<Rightarrow> pyfloat \<Rightarrow> pyfloat"
  fdiv :: "pyfloat \<Rightarrow> pyfloat \<Rightarrow> pyfloat"
  round2 :: "pyfloat \<Rightarrow> pyfloat"
  fmt_2f :: "pyfloat \<Rightarrow> string"
  fmt_6f :: "pyfloat \<Rightarrow> string"
  fstr :: "pyfloat \<Rightarrow> string"

text \<open>
  What a process reads from its environment: \<open>os.getpid()\<close> and the two readings of
  \<open>time.perf_counter()\<close>.
\<close>

record entorno =
  getpid :: nat
  perf_t0 :: pyfloat
  perf_t1 :: pyfloat

definition dur_de :: "builtins \<Rightarrow> entorno \<Rightarrow> pyfloat" where
  "dur_de B E = fsub B (perf_t1 E) (perf_t0 E)"

subsection \<open>String methods\<close>

definition py_isspace :: "char \<Rightarrow> bool" where
  "py_isspace c = (of_char c \<in> {9, 10, 11, 12, 13, 28, 29, 30, 31, 32, 133, 160 :: nat})"

definition lstrip :: "string \<Rightarrow> string" where
  "lstrip s = dropWhile py_isspace s"

definition strip :: "string \<Rightarrow> string" where
  "strip s = rev (dropWhile py_isspace (rev (dropWhile py_isspace s)))"

text \<open>\<open>s.split(sep)\<close> for a separator of one character: never an empty list.\<close>

fun split_on :: "char \<Rightarrow> string \<Rightarrow> string list" where
  "split_on sep [] = [[]]"
| "split_on sep (c # cs) =
     (if c = sep then [] # split_on sep cs
      else (case split_on sep cs of
              [] \<Rightarrow> [[c]]
            | w # ws \<Rightarrow> (c # w) # ws))"

text \<open>\<open>s.split(maxsplit=1)\<close>: at most two fields, separated by a run of whitespace.\<close>

definition split_max1 :: "string \<Rightarrow> string list" where
  "split_max1 s =
     (let u = lstrip s in
      if u = [] then []
      else (let w = takeWhile (\<lambda>c. \<not> py_isspace c) u;
                r = lstrip (dropWhile (\<lambda>c. \<not> py_isspace c) u)
            in if r = [] then [w] else [w, r]))"

text \<open>Decimal digits of a natural number and of an integer, as \<open>str\<close> prints them.\<close>

definition digit_char :: "nat \<Rightarrow> char" where
  "digit_char d = char_of (48 + d)"

fun show_nat :: "nat \<Rightarrow> string" where
  "show_nat n = (if n < 10 then [digit_char n] else show_nat (n div 10) @ [digit_char (n mod 10)])"

declare show_nat.simps [simp del]

definition show_int :: "int \<Rightarrow> string" where
  "show_int i = (if i < 0 then CHR ''-'' # show_nat (nat (- i)) else show_nat (nat i))"

subsection \<open>Pipe connections\<close>

text \<open>
  The sending end of a \<open>Pipe(duplex=False)\<close>: the messages sent so far, oldest first,
  and whether \<open>close()\<close> has been called. \<open>send\<close> on a closed end raises
  \<open>OSError\<close>; \<open>close\<close> may be repeated.
\<close>

record 'm conn_send =
  enviado :: "'m list"
  cerrado :: bool

definition nuevo_send :: "'m conn_send" where
  "nuevo_send = \<lparr>enviado = [], cerrado = False\<rparr>"

definition send :: "'m conn_send \<Rightarrow> 'm \<Rightarrow> error + 'm conn_send" where
  "send c m = (if cerrado c then Inl OSError else Inr (c\<lparr>enviado := enviado c @ [m]\<rparr>))"

definition close_send :: "'m conn_send \<Rightarrow> 'm conn_send" where
  "close_send c = c\<lparr>cerrado := True\<rparr>"

text \<open>
  The receiving end: the messages that have been sent and not yet received, oldest
  first, whether every copy of the sending end has been closed, and whether this end has
  been closed. \<open>recv\<close> on a drained pipe raises \<open>EOFError\<close> when the sender is
  gone and blocks for ever otherwise; on a closed receiving end it raises \<open>OSError\<close>.
  \<open>poll(timeout)\<close> is true when a message or the end of the stream can be read.
\<close>

record 'm conn_recv =
  pendiente :: "'m list"
  emisor_cerrado :: bool
  rcerrado :: bool

definition nuevo_recv :: "'m list \<Rightarrow> 'm conn_recv" where
  "nuevo_recv ms = \<lparr>pendiente = ms, emisor_cerrado = True, rcerrado = False\<rparr>"

definition recv :: "'m conn_recv \<Rightarrow> error + ('m \<times> 'm conn_recv)" where
  "recv c =
     (if rcerrado c then Inl OSError
      else (case pendiente c of
              [] \<Rightarrow> if emisor_cerrado c then Inl EOFError else Inl Bloqueado
            | m # ms \<Rightarrow> Inr (m, c\<lparr>pendiente := ms\<rparr>)))"

definition poll :: "'m conn_recv \<Rightarrow> error + bool" where
  "poll c =
     (if rcerrado c then Inl OSError
      else Inr (pendiente c \<noteq> [] \<or> emisor_cerrado c))"

definition close_recv :: "'m conn_recv \<Rightarrow> 'm conn_recv" where
  "close_recv c = c\<lparr>rcerrado := True\<rparr>"

subsection \<open>Text files\<close>

text \<open>
  The file system maps a path to the text of the file. Reading in text mode translates
  \<open>\r\n\<close> and \<open>\r\<close> to \<open>\n\<close>; iterating over the file gives its lines, each with
  its final \<open>\n\<close> when it has one.
\<close>

type_synonym ficheros = "string \<rightharpoonup> string"

fun traducir_nl :: "string \<Rightarrow> string" where
  "traducir_nl [] = []"
| "traducir_nl [c] = (if c = CHR 0x0D then [CHR 0x0A] else [c])"
| "traducir_nl (c # d # cs) =
     (if c = CHR 0x0D then
        (if d = CHR 0x0A then CHR 0x0A # traducir_nl cs else CHR 0x0A # traducir_nl (d # cs))
      else c # traducir_nl (d # cs))"

fun lineas :: "string \<Rightarrow> string list" where
  "lineas [] = []"
| "lineas (c # cs) =
     (if c = CHR 0x0A then [c] # lineas cs
      else (case lineas cs of
              [] \<Rightarrow> [[c]]
            | l # ls \<Rightarrow> (c # l) # ls))"

definition leer_lineas :: "ficheros \<Rightarrow> string \<Rightarrow> error + string list" where
  "leer_lineas fs ruta =
     (case fs ruta of
        None \<Rightarrow> Inl FileNotFoundError
      | Some texto \<Rightarrow> Inr (lineas (traducir_nl texto)))"

definition escribir :: "ficheros \<Rightarrow> string \<Rightarrow> string \<Rightarrow> ficheros" where
  "escribir fs ruta texto = fs(ruta \<mapsto> texto)"

definition apendar :: "ficheros \<Rightarrow> string \<Rightarrow> string \<Rightarrow> ficheros" where
  "apendar fs ruta texto =
     fs(ruta \<mapsto> (case fs ruta of None \<Rightarrow> [] | Some previo \<Rightarrow> previo) @ texto)"

section \<open>EJ2: generator, filter and printer of IP addresses\<close>

text \<open>
  \<open>generar_ips(n, conn_send)\<close>. \<open>azar k\<close> is the raw value behind the k-th call of
  \<open>random.randint(1, 254)\<close>, which is always between 1 and 254. The function returns
  the lines it prints and the connection.
\<close>

definition randint_1_254 :: "(nat \<Rightarrow> nat) \<Rightarrow> nat \<Rightarrow> nat" where
  "randint_1_254 azar k = 1 + azar k mod 254"

fun join :: "string \<Rightarrow> string list \<Rightarrow> string" where
  "join sep [] = []"
| "join sep [x] = x"
| "join sep (x # y # ys) = x @ sep @ join sep (y # ys)"

definition ip_aleatoria :: "(nat \<Rightarrow> nat) \<Rightarrow> nat \<Rightarrow> string" where
  "ip_aleatoria azar i =
     join ''.'' (map (\<lambda>j. show_nat (randint_1_254 azar (4 * i + j))) [0..<4])"

fun enviar_todos :: "'m conn_send \<Rightarrow> 'm list \<Rightarrow> nat \<Rightarrow> error + ('m conn_send \<times> nat)" where
  "enviar_todos c [] k = Inr (c, k)"
| "enviar_todos c (m # ms) k =
     (case send c m of
        Inl e \<Rightarrow> Inl e
      | Inr c' \<Rightarrow> enviar_todos c' ms (k + 1))"

definition generar_ips ::
  "builtins \<Rightarrow> entorno \<Rightarrow> (nat \<Rightarrow> nat) \<Rightarrow> nat \<Rightarrow> string option conn_send
     \<Rightarrow> error + (string list \<times> string option conn_send)" where
  "generar_ips B E azar n c =
     (case enviar_todos c (map (\<lambda>i. Some (ip_aleatoria azar i)) [0..<n]) 0 of
        Inl e \<Rightarrow> Inl e
      | Inr (c1, enviados) \<Rightarrow>
          (case send c1 None of
             Inl e \<Rightarrow> Inl e
           | Inr c2 \<Rightarrow>
               Inr ([''[P1 PID '' @ show_nat (getpid E) @ ''] Generador termin'' @ [CHR 0xF3]
                       @ ''. IPs enviadas: '' @ show_nat enviados @ ''. Tiempo: ''
                       @ fmt_6f B (dur_de B E) @ '' s''],
                    close_send c2)))"

text \<open>
  \<open>clase_ip(ip)\<close>: the class letter, or \<open>None\<close>. The \<open>try\<close> covers the split, the
  index and the conversion, and every exception there returns \<open>None\<close>.
\<close>

definition clase_ip :: "builtins \<Rightarrow> string \<Rightarrow> char option" where
  "clase_ip B ip =
     (case split_on CHR ''.'' ip of
        [] \<Rightarrow> None
      | campo # _ \<Rightarrow>
          (case py_int B campo of
             None \<Rightarrow> None
           | Some primer \<Rightarrow>
               if 1 \<le> primer \<and> primer \<le> 126 \<and> primer \<noteq> 127 then Some CHR ''A''
               else if 128 \<le> primer \<and> primer \<le> 191 then Some CHR ''B''
               else if 192 \<le> primer \<and> primer \<le> 223 then Some CHR ''C''
               else if 224 \<le> primer \<and> primer \<le> 239 then Some CHR ''D''
               else if 240 \<le> primer \<and> primer \<le> 254 then Some CHR ''E''
               else None))"

text \<open>
  \<open>filtrar_ips(conn_recv, conn_send)\<close>: the loop, then the sentinel, the summary line
  and the two \<open>close()\<close>. The loop carries the two connections and the two counters.
\<close>

function filtrar_bucle ::
  "builtins \<Rightarrow> string option conn_recv \<Rightarrow> (string \<times> char) option conn_send \<Rightarrow> nat \<Rightarrow> nat
     \<Rightarrow> error + (string option conn_recv \<times> (string \<times> char) option conn_send \<times> nat \<times> nat)"
  where
  "filtrar_bucle B cr cs recibidas reenviadas =
     (case recv cr of
        Inl e \<Rightarrow> Inl e
      | Inr (None, cr') \<Rightarrow> Inr (cr', cs, recibidas, reenviadas)
      | Inr (Some ip, cr') \<Rightarrow>
          (case clase_ip B ip of
             None \<Rightarrow> filtrar_bucle B cr' cs (recibidas + 1) reenviadas
           | Some cl \<Rightarrow>
               if cl \<in> {CHR ''A'', CHR ''B'', CHR ''C''} then
                 (case send cs (Some (ip, cl)) of
                    Inl e \<Rightarrow> Inl e
                  | Inr cs' \<Rightarrow> filtrar_bucle B cr' cs' (recibidas + 1) (reenviadas + 1))
               else filtrar_bucle B cr' cs (recibidas + 1) reenviadas))"
  by pat_completeness auto
termination
  by (relation "measure (\<lambda>(B, cr, cs, a, b). length (pendiente cr))")
     (auto simp: recv_def split: if_splits list.splits)

declare filtrar_bucle.simps [simp del]

definition filtrar_ips ::
  "builtins \<Rightarrow> entorno \<Rightarrow> string option conn_recv \<Rightarrow> (string \<times> char) option conn_send
     \<Rightarrow> error + (string list \<times> string option conn_recv \<times> (string \<times> char) option conn_send)"
  where
  "filtrar_ips B E cr cs =
     (case filtrar_bucle B cr cs 0 0 of
        Inl e \<Rightarrow> Inl e
      | Inr (cr1, cs1, recibidas, reenviadas) \<Rightarrow>
          (case send cs1 None of
             Inl e \<Rightarrow> Inl e
           | Inr cs2 \<Rightarrow>
               Inr ([''[P2 PID '' @ show_nat (getpid E) @ ''] Filtro termin'' @ [CHR 0xF3]
                       @ ''. Recibidas: '' @ show_nat recibidas @ ''. Reenviadas: ''
                       @ show_nat reenviadas @ ''. Tiempo: ''
                       @ fmt_6f B (dur_de B E) @ '' s''],
                    close_recv cr1, close_send cs2)))"

text \<open>
  \<open>imprimir_ips(conn_recv)\<close>: one printed line for each pair received, until the
  sentinel; then the summary line and \<open>close()\<close>.
\<close>

definition linea_ip :: "entorno \<Rightarrow> string \<times> char \<Rightarrow> string" where
  "linea_ip E item =
     ''[P3 PID '' @ show_nat (getpid E) @ ''] '' @ fst item @ '' -> Clase '' @ [snd item]"

function imprimir_bucle ::
  "entorno \<Rightarrow> (string \<times> char) option conn_recv \<Rightarrow> string list \<Rightarrow> nat
     \<Rightarrow> error + ((string \<times> char) option conn_recv \<times> string list \<times> nat)" where
  "imprimir_bucle E cr salida procesadas =
     (case recv cr of
        Inl e \<Rightarrow> Inl e
      | Inr (None, cr') \<Rightarrow> Inr (cr', salida, procesadas)
      | Inr (Some item, cr') \<Rightarrow>
          imprimir_bucle E cr' (salida @ [linea_ip E item]) (procesadas + 1))"
  by pat_completeness auto
termination
  by (relation "measure (\<lambda>(E, cr, s, k). length (pendiente cr))")
     (auto simp: recv_def split: if_splits list.splits)

declare imprimir_bucle.simps [simp del]

definition imprimir_ips ::
  "builtins \<Rightarrow> entorno \<Rightarrow> (string \<times> char) option conn_recv
     \<Rightarrow> error + (string list \<times> (string \<times> char) option conn_recv)" where
  "imprimir_ips B E cr =
     (case imprimir_bucle E cr [] 0 of
        Inl e \<Rightarrow> Inl e
      | Inr (cr1, salida, procesadas) \<Rightarrow>
          Inr (salida @
               [''[P3 PID '' @ show_nat (getpid E) @ ''] Imprimir termin'' @ [CHR 0xF3]
                  @ ''. IPs procesadas: '' @ show_nat procesadas @ ''. Tiempo: ''
                  @ fmt_6f B (dur_de B E) @ '' s''],
               close_recv cr1))"

section \<open>EJ1: one vowel counter per vowel\<close>

subsection \<open>The worker\<close>

definition lower_char :: "char \<Rightarrow> char" where
  "lower_char c =
     (let n = (of_char c :: nat) in
      if (65 \<le> n \<and> n \<le> 90) \<or> (192 \<le> n \<and> n \<le> 214) \<or> (216 \<le> n \<and> n \<le> 222)
      then char_of (n + 32) else c)"

definition lower :: "string \<Rightarrow> string" where
  "lower s = map lower_char s"

text \<open>\<open>s.count(sub)\<close>: the occurrences of \<open>sub\<close> in \<open>s\<close> that do not overlap.\<close>

function count_str :: "string \<Rightarrow> string \<Rightarrow> nat" where
  "count_str s sub =
     (if sub = [] then length s + 1
      else if length s < length sub then 0
      else if take (length sub) s = sub then 1 + count_str (drop (length sub) s) sub
      else count_str (tl s) sub)"
  by pat_completeness auto
termination
  by (relation "measure (\<lambda>(s, sub). length s)") (auto simp flip: length_greater_0_conv)

declare count_str.simps [simp del]

fun contar_lineas :: "string \<Rightarrow> string list \<Rightarrow> int \<Rightarrow> int" where
  "contar_lineas vocal [] conteo = conteo"
| "contar_lineas vocal (linea # resto) conteo =
     contar_lineas vocal resto (conteo + int (count_str (lower linea) (lower vocal)))"

type_synonym mensaje_vocal = "string \<times> int \<times> nat \<times> pyfloat"

text \<open>
  \<open>contar_vocal_pipe(vocal, ruta_fichero, conn_send)\<close>: the count, or -1 when
  \<open>open\<close> raises \<open>FileNotFoundError\<close>; then the tuple is sent and the end closed.
\<close>

definition contar_vocal_pipe ::
  "builtins \<Rightarrow> entorno \<Rightarrow> ficheros \<Rightarrow> string \<Rightarrow> string \<Rightarrow> mensaje_vocal conn_send
     \<Rightarrow> error + mensaje_vocal conn_send" where
  "contar_vocal_pipe B E fs vocal ruta_fichero c =
     (case (case leer_lineas fs ruta_fichero of
              Inr ls \<Rightarrow> Inr (contar_lineas vocal ls 0)
            | Inl e \<Rightarrow> if e = FileNotFoundError then Inr (- 1) else Inl e) of
        Inl e \<Rightarrow> Inl e
      | Inr conteo \<Rightarrow>
          (case send c (vocal, conteo, getpid E, dur_de B E) of
             Inl e \<Rightarrow> Inl e
           | Inr c' \<Rightarrow> Inr (close_send c')))"

definition ejemplo :: string where
  "ejemplo =
     ''Este es un fichero de ejemplo. Contiene varias vocales: ''
     @ ''aaaa eeee iiii oooo uuuu. Adem'' @ [CHR 0xE1] @ ''s algunas palabras en may''
     @ [CHR 0xFA] @ ''sculas: AEIOU.'' @ [CHR 0x0A]
     @ ''Multiprocessing permite ejecutar tareas en paralelo y acelerar ciertos trabajos.''
     @ [CHR 0x0A]"

definition crear_fichero_ejemplo :: "ficheros \<Rightarrow> string \<Rightarrow> nat \<Rightarrow> ficheros" where
  "crear_fichero_ejemplo fs ruta repeticiones =
     escribir fs ruta (concat (replicate repeticiones ejemplo))"

subsection \<open>The parent\<close>

text \<open>
  An entry of the dictionary \<open>resultados\<close>. The dictionary is an association list in
  insertion order; assigning to a key that is present replaces its value in place.
\<close>

record info =
  conteo :: int
  pid :: "nat option"
  dur :: "pyfloat option"

definition marca_error :: info where
  "marca_error = \<lparr>conteo = - 1, pid = None, dur = None\<rparr>"

text \<open>
  The collection loop over \<open>procesos\<close>, after the joins. Only \<open>EOFError\<close> is caught.
  The \<open>finally\<close> closes each receiving end, which is not used again and is left
  out of the result.
\<close>

definition recoger_uno ::
  "string \<Rightarrow> mensaje_vocal conn_recv \<Rightarrow> (string \<times> info) list
     \<Rightarrow> error + (string \<times> info) list" where
  "recoger_uno v cr resultados =
     (case poll cr of
        Inl e \<Rightarrow> if e = EOFError then Inr (AList.update v marca_error resultados) else Inl e
      | Inr True \<Rightarrow>
          (case recv cr of
             Inl e \<Rightarrow> if e = EOFError then Inr (AList.update v marca_error resultados) else Inl e
           | Inr ((vocal, conteo', pid', dur'), cr') \<Rightarrow>
               Inr (AList.update vocal \<lparr>conteo = conteo', pid = Some pid', dur = Some dur'\<rparr>
                      resultados))
      | Inr False \<Rightarrow> Inr (AList.update v marca_error resultados))"

fun recoger ::
  "(string \<times> mensaje_vocal conn_recv) list \<Rightarrow> (string \<times> info) list
     \<Rightarrow> error + (string \<times> info) list" where
  "recoger [] resultados = Inr resultados"
| "recoger ((v, cr) # resto) resultados =
     (case recoger_uno v cr resultados of
        Inl e \<Rightarrow> Inl e
      | Inr resultados' \<Rightarrow> recoger resto resultados')"

text \<open>
  The report: one line for each key of \<open>resultados\<close>, in sorted order. Formatting
  \<open>None\<close> with \<open>.6f\<close> raises \<open>TypeError\<close>.
\<close>

definition show_pid :: "nat option \<Rightarrow> string" where
  "show_pid p = (case p of None \<Rightarrow> ''None'' | Some n \<Rightarrow> show_nat n)"

definition linea_informe :: "builtins \<Rightarrow> string \<Rightarrow> info \<Rightarrow> error + string" where
  "linea_informe B v i =
     (if conteo i = - 1 then
        Inr (''  '' @ v @ '': Error leyendo el fichero (PID proceso: '' @ show_pid (pid i) @ '')'')
      else (case dur i of
              None \<Rightarrow> Inl TypeError
            | Some d \<Rightarrow>
                Inr (''  '' @ v @ '': '' @ show_int (conteo i) @ '' (PID: '' @ show_pid (pid i)
                     @ '', tiempo proceso: '' @ fmt_6f B d @ '' s)'')))"

fun informe :: "builtins \<Rightarrow> (string \<times> info) list \<Rightarrow> string list \<Rightarrow> error + string list" where
  "informe B resultados [] = Inr []"
| "informe B resultados (v # vs) =
     (case map_of resultados v of
        None \<Rightarrow> Inl KeyError
      | Some i \<Rightarrow>
          (case linea_informe B v i of
             Inl e \<Rightarrow> Inl e
           | Inr l \<Rightarrow>
               (case informe B resultados vs of
                  Inl e \<Rightarrow> Inl e
                | Inr ls \<Rightarrow> Inr (l # ls))))"

text \<open>
  The main program. \<open>Ep\<close> is the environment of the parent and \<open>Eh v\<close> the one of
  the child that counts \<open>v\<close>. A child either runs \<open>contar_vocal_pipe\<close> to its end
  or dies before it sends anything (\<open>muere v\<close>); in both cases its sending end is
  closed when the parent has joined it, and the parent has closed its own copy.
\<close>

definition vocales :: "string list" where
  "vocales = [''a'', ''e'', ''i'', ''o'', ''u'']"

definition extremo_padre ::
  "error + mensaje_vocal conn_send \<Rightarrow> mensaje_vocal conn_recv" where
  "extremo_padre r =
     (case r of
        Inl e \<Rightarrow> \<lparr>pendiente = [], emisor_cerrado = True, rcerrado = False\<rparr>
      | Inr c \<Rightarrow> \<lparr>pendiente = enviado c, emisor_cerrado = True, rcerrado = False\<rparr>)"

definition lanzar ::
  "builtins \<Rightarrow> (string \<Rightarrow> entorno) \<Rightarrow> (string \<Rightarrow> bool) \<Rightarrow> ficheros \<Rightarrow> string \<Rightarrow> string
     \<Rightarrow> string \<times> mensaje_vocal conn_recv" where
  "lanzar B Eh muere fs ruta v =
     (v, if muere v then extremo_padre (Inl OSError)
         else extremo_padre (contar_vocal_pipe B (Eh v) fs v ruta nuevo_send))"

definition main_ej1 ::
  "builtins \<Rightarrow> entorno \<Rightarrow> (string \<Rightarrow> entorno) \<Rightarrow> (string \<Rightarrow> bool) \<Rightarrow> ficheros
     \<Rightarrow> error + ((string \<times> info) list \<times> string list)" where
  "main_ej1 B Ep Eh muere fs =
     (let ruta = ''texto.txt'';
          falta = (fs ruta = None);
          fs1 = (if falta then crear_fichero_ejemplo fs ruta 2000 else fs);
          aviso = (if falta
                   then [''Fichero de ejemplo no encontrado. Creando 'texto.txt' para pruebas...'']
                   else []);
          procesos = map (lanzar B Eh muere fs1 ruta) vocales
      in (case recoger procesos [] of
            Inl e \<Rightarrow> Inl e
          | Inr resultados \<Rightarrow>
              (case informe B resultados (sort (map fst resultados)) of
                 Inl e \<Rightarrow> Inl e
               | Inr ls \<Rightarrow>
                   Inr (resultados,
                        aviso
                        @ [CHR 0x0A # ''Resultados (vocal: conteo) y tiempos por proceso:'']
                        @ ls
                        @ [CHR 0x0A # ''Tiempo total de ejecuci'' @ [CHR 0xF3]
                             @ ''n (proceso principal): '' @ fmt_6f B (dur_de B Ep) @ '' s'']))))"

section \<open>EJ3: marks, means and the best mean\<close>

subsection \<open>EJ3A: one process per student and a lock\<close>

text \<open>
  \<open>generar_notas(ruta_fichero, n_notas)\<close>. \<open>uniforme k\<close> is the k-th value of
  \<open>random.uniform(1.0, 10.0)\<close>.
\<close>

definition texto_notas :: "builtins \<Rightarrow> (nat \<Rightarrow> pyfloat) \<Rightarrow> nat \<Rightarrow> string" where
  "texto_notas B uniforme n_notas =
     concat (map (\<lambda>k. fstr B (round2 B (uniforme k)) @ [CHR 0x0A]) [0..<n_notas])"

definition generar_notas ::
  "builtins \<Rightarrow> entorno \<Rightarrow> (nat \<Rightarrow> pyfloat) \<Rightarrow> ficheros \<Rightarrow> string \<Rightarrow> nat
     \<Rightarrow> string list \<times> ficheros" where
  "generar_notas B E uniforme fs ruta_fichero n_notas =
     ([''[P-GEN PID '' @ show_nat (getpid E) @ ''] Generado '' @ ruta_fichero @ '' en ''
         @ fmt_6f B (dur_de B E) @ '' s''],
      escribir fs ruta_fichero (texto_notas B uniforme n_notas))"

text \<open>The loop that reads the marks: blank lines and lines that are not a float are skipped.\<close>

fun leer_notas :: "builtins \<Rightarrow> string list \<Rightarrow> pyfloat list \<Rightarrow> pyfloat list" where
  "leer_notas B [] notas = notas"
| "leer_notas B (linea # resto) notas =
     (let l = strip linea in
      if l = [] then leer_notas B resto notas
      else (case py_float B l of
              Some x \<Rightarrow> leer_notas B resto (notas @ [x])
            | None \<Rightarrow> leer_notas B resto notas))"

text \<open>
  \<open>sum(notas) / len(notas)\<close>: the division of a float by an integer raises
  \<open>ZeroDivisionError\<close> when the integer is zero.
\<close>

definition py_sum :: "builtins \<Rightarrow> pyfloat list \<Rightarrow> pyfloat" where
  "py_sum B xs = foldl (fadd B) (Fin 0) xs"

definition truediv :: "builtins \<Rightarrow> pyfloat \<Rightarrow> nat \<Rightarrow> error + pyfloat" where
  "truediv B x n = (if n = 0 then Inl ZeroDivisionError else Inr (fdiv B x (Fin (real n))))"

definition media_notas :: "builtins \<Rightarrow> pyfloat list \<Rightarrow> error + pyfloat" where
  "media_notas B notas =
     (if notas \<noteq> [] then truediv B (py_sum B notas) (length notas) else Inr (Fin 0))"

definition linea_media :: "builtins \<Rightarrow> pyfloat \<Rightarrow> string \<Rightarrow> string" where
  "linea_media B media nombre_alumno = fmt_2f B media @ '' '' @ nombre_alumno @ [CHR 0x0A]"

text \<open>
  \<open>calcular_media_y_apendar(ruta_fichero, nombre_alumno, ruta_medias, lock)\<close>, run
  without interference: \<open>lock\<close> tells whether another process holds the lock, and then
  \<open>with lock\<close> never returns. The result is the printed lines, the files and the
  lock. The Python function returns \<open>None\<close> on every path.
\<close>

definition calcular_media_y_apendar ::
  "builtins \<Rightarrow> entorno \<Rightarrow> ficheros \<Rightarrow> bool \<Rightarrow> string \<Rightarrow> string \<Rightarrow> string
     \<Rightarrow> error + (string list \<times> ficheros \<times> bool)" where
  "calcular_media_y_apendar B E fs lock ruta_fichero nombre_alumno ruta_medias =
     (case leer_lineas fs ruta_fichero of
        Inl e \<Rightarrow>
          if e = FileNotFoundError then
            Inr ([''[P-MED PID '' @ show_nat (getpid E) @ ''] Error: fichero '' @ ruta_fichero
                    @ '' no encontrado.''], fs, lock)
          else Inl e
      | Inr ls \<Rightarrow>
          (case media_notas B (leer_notas B ls []) of
             Inl e \<Rightarrow> Inl e
           | Inr media \<Rightarrow>
               if lock then Inl Bloqueado
               else Inr ([''[P-MED PID '' @ show_nat (getpid E) @ ''] Calculada media ''
                            @ fmt_2f B media @ '' para '' @ nombre_alumno @ '' en ''
                            @ fmt_6f B (dur_de B E) @ '' s''],
                         apendar fs ruta_medias (linea_media B media nombre_alumno), False)))"

text \<open>
  Several processes running \<open>calcular_media_y_apendar\<close> at once, as the main program
  of EJ3A starts them: process \<open>i\<close> has the arguments \<open>tareas ! i\<close>, and all share
  the files, the path \<open>ruta_medias\<close> and the lock. A process is at one of these
  points: before reading its file (\<open>Inicio\<close>); with its line computed, waiting at
  \<open>with lock\<close> (\<open>Listo\<close>); holding the lock, before \<open>open\<close> (\<open>ConCandado\<close>);
  with the file open and a part of its line still to reach the file (\<open>Escribe\<close>);
  returned after its line was written and the lock released (\<open>Terminado\<close>); returned
  because its file was missing (\<open>SinFichero\<close>); ended by an exception raised inside
  \<open>with lock\<close>, which releases the lock (\<open>Abortado\<close>). The scheduler picks any
  process that can move. The text of a line may reach the file in several pieces.
\<close>

datatype fase = Inicio | Listo string | ConCandado string | Escribe string
  | Terminado | SinFichero | Abortado

record sistema =
  candado :: "nat option"
  archivos :: ficheros
  fases :: "fase list"

inductive paso :: "builtins \<Rightarrow> (string \<times> string) list \<Rightarrow> string \<Rightarrow> sistema \<Rightarrow> sistema \<Rightarrow> bool"
  for B :: builtins and tareas :: "(string \<times> string) list" and ruta_medias :: string where
  leer:
    "i < length tareas \<Longrightarrow> i < length (fases s) \<Longrightarrow> fases s ! i = Inicio
     \<Longrightarrow> leer_lineas (archivos s) (fst (tareas ! i)) = Inr ls
     \<Longrightarrow> media_notas B (leer_notas B ls []) = Inr media
     \<Longrightarrow> paso B tareas ruta_medias s
           (s\<lparr>fases := (fases s)[i := Listo (linea_media B media (snd (tareas ! i)))]\<rparr>)"
| falta:
    "i < length tareas \<Longrightarrow> i < length (fases s) \<Longrightarrow> fases s ! i = Inicio
     \<Longrightarrow> leer_lineas (archivos s) (fst (tareas ! i)) = Inl FileNotFoundError
     \<Longrightarrow> paso B tareas ruta_medias s (s\<lparr>fases := (fases s)[i := SinFichero]\<rparr>)"
| adquirir:
    "i < length (fases s) \<Longrightarrow> fases s ! i = Listo l \<Longrightarrow> candado s = None
     \<Longrightarrow> paso B tareas ruta_medias s
           (s\<lparr>candado := Some i, fases := (fases s)[i := ConCandado l]\<rparr>)"
| abrir:
    "i < length (fases s) \<Longrightarrow> fases s ! i = ConCandado l
     \<Longrightarrow> paso B tareas ruta_medias s
           (s\<lparr>archivos := apendar (archivos s) ruta_medias [],
              fases := (fases s)[i := Escribe l]\<rparr>)"
| escribe:
    "i < length (fases s) \<Longrightarrow> fases s ! i = Escribe (trozo @ r) \<Longrightarrow> trozo \<noteq> []
     \<Longrightarrow> paso B tareas ruta_medias s
           (s\<lparr>archivos := apendar (archivos s) ruta_medias trozo,
              fases := (fases s)[i := Escribe r]\<rparr>)"
| liberar:
    "i < length (fases s) \<Longrightarrow> fases s ! i = Escribe []
     \<Longrightarrow> paso B tareas ruta_medias s
           (s\<lparr>candado := None, fases := (fases s)[i := Terminado]\<rparr>)"
| abortar_abriendo:
    "i < length (fases s) \<Longrightarrow> fases s ! i = ConCandado l
     \<Longrightarrow> paso B tareas ruta_medias s
           (s\<lparr>candado := None, fases := (fases s)[i := Abortado]\<rparr>)"
| abortar_escribiendo:
    "i < length (fases s) \<Longrightarrow> fases s ! i = Escribe r
     \<Longrightarrow> paso B tareas ruta_medias s
           (s\<lparr>candado := None, fases := (fases s)[i := Abortado]\<rparr>)"

definition inicial :: "ficheros \<Rightarrow> nat \<Rightarrow> sistema" where
  "inicial fs n = \<lparr>candado = None, archivos = fs, fases = replicate n Inicio\<rparr>"

definition ha_vuelto :: "fase \<Rightarrow> bool" where
  "ha_vuelto f = (f = Terminado \<or> f = SinFichero \<or> f = Abortado)"

definition contenido :: "ficheros \<Rightarrow> string \<Rightarrow> string" where
  "contenido fs ruta = (case fs ruta of None \<Rightarrow> [] | Some texto \<Rightarrow> texto)"

text \<open>
  The line that process \<open>i\<close> appends when its file is read from \<open>fs\<close>: the mean
  with two decimals, a space, the name of the student and the end of line.
\<close>

definition linea_de :: "builtins \<Rightarrow> ficheros \<Rightarrow> string \<times> string \<Rightarrow> string" where
  "linea_de B fs tarea =
     (case leer_lineas fs (fst tarea) of
        Inl e \<Rightarrow> []
      | Inr ls \<Rightarrow>
          (case media_notas B (leer_notas B ls []) of
             Inl e \<Rightarrow> []
           | Inr media \<Rightarrow> linea_media B media (snd tarea)))"

text \<open>
  \<open>proceso_maximo_medias(ruta_medias)\<close>, the same function in EJ3A and EJ3B: the loop
  keeps \<open>max_nota\<close> and \<open>alumno_max\<close>; the function prints one line.
\<close>

fun maximo_bucle ::
  "builtins \<Rightarrow> string list \<Rightarrow> pyfloat option \<Rightarrow> string option
     \<Rightarrow> pyfloat option \<times> string option" where
  "maximo_bucle B [] max_nota alumno_max = (max_nota, alumno_max)"
| "maximo_bucle B (linea # resto) max_nota alumno_max =
     (let l = strip linea in
      if l = [] then maximo_bucle B resto max_nota alumno_max
      else (case split_max1 l of
              [p0, nombre] \<Rightarrow>
                (case py_float B p0 of
                   None \<Rightarrow> maximo_bucle B resto max_nota alumno_max
                 | Some nota \<Rightarrow>
                     if (case max_nota of None \<Rightarrow> True | Some m \<Rightarrow> fgt nota m)
                     then maximo_bucle B resto (Some nota) (Some nombre)
                     else maximo_bucle B resto max_nota alumno_max)
            | _ \<Rightarrow> maximo_bucle B resto max_nota alumno_max))"

definition show_str_opt :: "string option \<Rightarrow> string" where
  "show_str_opt x = (case x of None \<Rightarrow> ''None'' | Some t \<Rightarrow> t)"

definition linea_maximo :: "builtins \<Rightarrow> entorno \<Rightarrow> pyfloat \<Rightarrow> string option \<Rightarrow> string" where
  "linea_maximo B E m a =
     ''[P-MAX PID '' @ show_nat (getpid E) @ ''] Nota m'' @ [CHR 0xE1] @ ''xima: '' @ fmt_2f B m
     @ '' - Alumno: '' @ show_str_opt a @ '' (tiempo: '' @ fmt_6f B (dur_de B E) @ '' s)''"

definition linea_sin_medias :: "builtins \<Rightarrow> entorno \<Rightarrow> string \<Rightarrow> string" where
  "linea_sin_medias B E ruta_medias =
     ''[P-MAX PID '' @ show_nat (getpid E) @ ''] No se encontraron medias en '' @ ruta_medias
     @ '' (tiempo: '' @ fmt_6f B (dur_de B E) @ '' s)''"

definition linea_no_encontrado :: "entorno \<Rightarrow> string \<Rightarrow> string" where
  "linea_no_encontrado E ruta_medias =
     ''[P-MAX PID '' @ show_nat (getpid E) @ ''] Error: '' @ ruta_medias @ '' no encontrado.''"

definition proceso_maximo_medias ::
  "builtins \<Rightarrow> entorno \<Rightarrow> ficheros \<Rightarrow> string \<Rightarrow> error + string list" where
  "proceso_maximo_medias B E fs ruta_medias =
     (case leer_lineas fs ruta_medias of
        Inl e \<Rightarrow> if e = FileNotFoundError then Inr [linea_no_encontrado E ruta_medias] else Inl e
      | Inr ls \<Rightarrow>
          (case maximo_bucle B ls None None of
             (Some m, a) \<Rightarrow> Inr [linea_maximo B E m a]
           | (None, a) \<Rightarrow> Inr [linea_sin_medias B E ruta_medias]))"

subsection \<open>EJ3B: the same work on a pool\<close>

text \<open>\<open>generar_notas_pool(args)\<close> returns \<open>(ruta_fichero, t1 - t0, pid)\<close>.\<close>

definition generar_notas_pool ::
  "builtins \<Rightarrow> entorno \<Rightarrow> (nat \<Rightarrow> pyfloat) \<Rightarrow> string \<times> nat \<Rightarrow> ficheros
     \<Rightarrow> error + ((string \<times> pyfloat \<times> nat) \<times> ficheros)" where
  "generar_notas_pool B E uniforme args fs =
     (case args of (ruta_fichero, n_notas) \<Rightarrow>
        Inr ((ruta_fichero, dur_de B E, getpid E),
             escribir fs ruta_fichero (texto_notas B uniforme n_notas)))"

text \<open>\<open>calcular_media_pool(args)\<close> returns \<open>(media, nombre_alumno, t1 - t0, pid)\<close>.\<close>

definition calcular_media_pool ::
  "builtins \<Rightarrow> entorno \<Rightarrow> ficheros \<Rightarrow> string \<times> string
     \<Rightarrow> error + (pyfloat \<times> string \<times> pyfloat \<times> nat)" where
  "calcular_media_pool B E fs args =
     (case args of (ruta_fichero, nombre_alumno) \<Rightarrow>
        (case leer_lineas fs ruta_fichero of
           Inl e \<Rightarrow>
             if e = FileNotFoundError then Inr (Fin 0, nombre_alumno, Fin 0, getpid E)
             else Inl e
         | Inr ls \<Rightarrow>
             (case media_notas B (leer_notas B ls []) of
                Inl e \<Rightarrow> Inl e
              | Inr media \<Rightarrow> Inr (media, nombre_alumno, dur_de B E, getpid E))))"

text \<open>
  Modelled from the spec: \<open>Pool.map\<close> of the standard library is not code of the
  repository. The spec's \<open>mapTasks(workFn, tasks)\<close> distributes the tasks across the
  pool and returns the results in the order of the tasks, whichever worker ran each task
  and in whichever order they finished; every task gives exactly one result before it
  returns. Here \<open>quien i\<close> is the environment of the worker that runs task \<open>i\<close> and
  \<open>orden\<close> lists the indices of the tasks in the order in which they complete. Each
  result goes to the slot of its task. A task that never completes leaves its slot empty
  and the call never returns; the first failure is raised once every task is complete.
\<close>

definition pool_paso ::
  "('c \<Rightarrow> 'a \<Rightarrow> 'w \<Rightarrow> error + ('b \<times> 'w)) \<Rightarrow> 'a list \<Rightarrow> (nat \<Rightarrow> 'c) \<Rightarrow> nat
     \<Rightarrow> 'b option list \<times> nat list \<times> error option \<times> 'w
     \<Rightarrow> 'b option list \<times> nat list \<times> error option \<times> 'w" where
  "pool_paso f tareas quien i st =
     (case st of (huecos, hechas, fallo, w) \<Rightarrow>
        if i < length tareas \<and> i \<notin> set hechas then
          (case f (quien i) (tareas ! i) w of
             Inl e \<Rightarrow> (huecos, i # hechas, (case fallo of None \<Rightarrow> Some e | Some e0 \<Rightarrow> Some e0), w)
           | Inr (r, w') \<Rightarrow> (huecos[i := Some r], i # hechas, fallo, w'))
        else st)"

definition pool_map ::
  "('c \<Rightarrow> 'a \<Rightarrow> 'w \<Rightarrow> error + ('b \<times> 'w)) \<Rightarrow> 'a list \<Rightarrow> (nat \<Rightarrow> 'c) \<Rightarrow> nat list \<Rightarrow> 'w
     \<Rightarrow> error + ('b list \<times> 'w)" where
  "pool_map f tareas quien orden w =
     (case foldl (\<lambda>st i. pool_paso f tareas quien i st) (replicate (length tareas) None, [], None, w)
             orden of
        (huecos, hechas, fallo, w') \<Rightarrow>
          if length hechas < length tareas then Inl Bloqueado
          else (case fallo of
                  Some e \<Rightarrow> Inl e
                | None \<Rightarrow> Inr (List.map_filter id huecos, w')))"

text \<open>
  The main program of EJ3B. \<open>reloj k\<close> is the k-th reading of \<open>perf_counter\<close> in the
  parent; \<open>Eg i\<close> and \<open>Em i\<close> are the environments in which task \<open>i\<close> of each
  batch runs, \<open>uniforme i\<close> the random values of generation task \<open>i\<close>, \<open>orden_g\<close>
  and \<open>orden_m\<close> the completion orders of the two batches, \<open>Emax\<close> the environment
  of the last process. The result is what the program prints and the files it leaves.
\<close>

definition N_ALUMNOS :: nat where
  "N_ALUMNOS = 10"

definition N_NOTAS :: nat where
  "N_NOTAS = 6"

definition tareas_gen :: "(string \<times> nat) list" where
  "tareas_gen = map (\<lambda>i. (''Alumno'' @ show_nat i @ ''.txt'', N_NOTAS)) [1..<N_ALUMNOS + 1]"

definition tareas_med :: "(string \<times> string) list" where
  "tareas_med = map (\<lambda>i. (''Alumno'' @ show_nat i @ ''.txt'', ''Alumno'' @ show_nat i))
                    [1..<N_ALUMNOS + 1]"

definition texto_medias :: "builtins \<Rightarrow> (pyfloat \<times> string \<times> pyfloat \<times> nat) list \<Rightarrow> string" where
  "texto_medias B resultados_med =
     concat (map (\<lambda>(media, nombre, dur, pid). linea_media B media nombre) resultados_med)"

definition linea_gen :: "builtins \<Rightarrow> string \<times> pyfloat \<times> nat \<Rightarrow> string" where
  "linea_gen B r =
     (case r of (ruta, d, p) \<Rightarrow>
        ''  '' @ ruta @ '' (tiempo worker: '' @ fmt_6f B d @ '' s, PID worker: '' @ show_nat p
        @ '')'')"

definition linea_med :: "builtins \<Rightarrow> pyfloat \<times> string \<times> pyfloat \<times> nat \<Rightarrow> string" where
  "linea_med B r =
     (case r of (media, nombre, d, p) \<Rightarrow>
        ''  '' @ nombre @ '': '' @ fmt_2f B media @ '' (tiempo worker: '' @ fmt_6f B d
        @ '' s, PID: '' @ show_nat p @ '')'')"

definition main_ej3b ::
  "builtins \<Rightarrow> (nat \<Rightarrow> pyfloat) \<Rightarrow> (nat \<Rightarrow> entorno) \<Rightarrow> (nat \<Rightarrow> nat \<Rightarrow> pyfloat) \<Rightarrow> nat list
     \<Rightarrow> (nat \<Rightarrow> entorno) \<Rightarrow> nat list \<Rightarrow> entorno \<Rightarrow> ficheros
     \<Rightarrow> error + (string list \<times> ficheros)" where
  "main_ej3b B reloj Eg uniforme orden_g Em orden_m Emax fs =
     (let ruta_medias = ''medias.txt'';
          fs0 = fs(ruta_medias := None)
      in (case pool_map (\<lambda>(E, u) t w. generar_notas_pool B E u t w) tareas_gen
                 (\<lambda>i. (Eg i, uniforme i)) orden_g fs0 of
            Inl e \<Rightarrow> Inl e
          | Inr (resultados_gen, fs1) \<Rightarrow>
              (case pool_map (\<lambda>E t w. map_sum id (\<lambda>r. (r, w)) (calcular_media_pool B E w t))
                      tareas_med Em orden_m fs1 of
                 Inl e \<Rightarrow> Inl e
               | Inr (resultados_med, fs2) \<Rightarrow>
                   (let fs3 = escribir fs2 ruta_medias (texto_medias B resultados_med);
                        salida_max = (case proceso_maximo_medias B Emax fs3 ruta_medias of
                                        Inl e \<Rightarrow> []
                                      | Inr ls \<Rightarrow> ls)
                    in Inr ([CHR 0x0A # ''[Padre] Resultados generaci'' @ [CHR 0xF3]
                               @ ''n (ruta, tiempo, pid):'']
                            @ map (linea_gen B) resultados_gen
                            @ [''[Padre] Tiempo generaci'' @ [CHR 0xF3] @ ''n total: ''
                                 @ fmt_6f B (fsub B (reloj 2) (reloj 1)) @ '' s'' @ [CHR 0x0A],
                               ''[Padre] Resultados medias (media, alumno, tiempo_worker, pid):'']
                            @ map (linea_med B) resultados_med
                            @ [''[Padre] Tiempo c'' @ [CHR 0xE1] @ ''lculo medias total: ''
                                 @ fmt_6f B (fsub B (reloj 4) (reloj 3)) @ '' s'' @ [CHR 0x0A]]
                            @ salida_max
                            @ [CHR 0x0A # ''[Padre] Tiempo etapa m'' @ [CHR 0xE1] @ ''ximo: ''
                                 @ fmt_6f B (fsub B (reloj 6) (reloj 5)) @ '' s'',
                               ''[Padre] Tiempo total (todas las etapas): ''
                                 @ fmt_6f B (fsub B (reloj 7) (reloj 0)) @ '' s''],
                            fs3)))))"

section \<open>EJ4: the films of one year\<close>

text \<open>
  \<open>proceso_filtrar_por_anyo(ruta_fichero, anyo_objetivo, conn_send)\<close>. The loop stops at
  the first exception, which the \<open>try\<close> catches and prints; then the sentinel is sent
  (a failure there is ignored), the summary printed and the end closed.
\<close>

fun filtrar_anyo_bucle ::
  "builtins \<Rightarrow> int \<Rightarrow> string list \<Rightarrow> string option conn_send \<Rightarrow> nat
     \<Rightarrow> error option \<times> string option conn_send \<times> nat" where
  "filtrar_anyo_bucle B anyo_objetivo [] c enviados = (None, c, enviados)"
| "filtrar_anyo_bucle B anyo_objetivo (linea # resto) c enviados =
     (let l = strip linea in
      if l = [] then filtrar_anyo_bucle B anyo_objetivo resto c enviados
      else (case map strip (split_on CHR '';'' l) of
              [titulo, anyo_str] \<Rightarrow>
                (case py_int B anyo_str of
                   None \<Rightarrow> filtrar_anyo_bucle B anyo_objetivo resto c enviados
                 | Some anyo \<Rightarrow>
                     if anyo = anyo_objetivo then
                       (case send c (Some (titulo @ '';'' @ show_int anyo)) of
                          Inl e \<Rightarrow> (Some e, c, enviados)
                        | Inr c' \<Rightarrow> filtrar_anyo_bucle B anyo_objetivo resto c' (enviados + 1))
                     else filtrar_anyo_bucle B anyo_objetivo resto c enviados)
            | _ \<Rightarrow> filtrar_anyo_bucle B anyo_objetivo resto c enviados))"

definition str_error :: "error \<Rightarrow> string" where
  "str_error e = (if e = OSError then ''handle is closed'' else [])"

definition proceso_filtrar_por_anyo ::
  "builtins \<Rightarrow> entorno \<Rightarrow> ficheros \<Rightarrow> string \<Rightarrow> int \<Rightarrow> string option conn_send
     \<Rightarrow> string list \<times> string option conn_send" where
  "proceso_filtrar_por_anyo B E fs ruta_fichero anyo_objetivo c =
     (let (fallo, c1, enviados) =
            (case leer_lineas fs ruta_fichero of
               Inl e \<Rightarrow> (Some e, c, 0)
             | Inr ls \<Rightarrow> filtrar_anyo_bucle B anyo_objetivo ls c 0);
          avisos =
            (case fallo of
               None \<Rightarrow> []
             | Some e \<Rightarrow>
                 if e = FileNotFoundError then
                   [''[P1 PID '' @ show_nat (getpid E) @ ''] Error: fichero no encontrado: ''
                      @ ruta_fichero]
                 else [''[P1 PID '' @ show_nat (getpid E) @ ''] Error leyendo fichero: ''
                         @ str_error e]);
          c2 = (case send c1 None of Inl e \<Rightarrow> c1 | Inr c' \<Rightarrow> c')
      in (avisos
          @ [''[P1 PID '' @ show_nat (getpid E) @ ''] Filtrado terminado. Enviadas: ''
               @ show_nat enviados @ ''. Tiempo: '' @ fmt_6f B (dur_de B E) @ '' s''],
          close_send c2))"

section \<open>Notions used to state the properties\<close>

text \<open>The first field of an address: everything before its first dot.\<close>

definition primer_campo :: "string \<Rightarrow> string" where
  "primer_campo ip = takeWhile (\<lambda>c. c \<noteq> CHR ''.'') ip"

text \<open>
  The addresses of class A, B or C among \<open>ips\<close>, in the order of \<open>ips\<close>, each with
  its class.
\<close>

definition es_abc :: "builtins \<Rightarrow> string \<Rightarrow> bool" where
  "es_abc B ip = (clase_ip B ip \<in> {Some CHR ''A'', Some CHR ''B'', Some CHR ''C''})"

definition supervivientes :: "builtins \<Rightarrow> string list \<Rightarrow> (string \<times> char) list" where
  "supervivientes B ips = map (\<lambda>ip. (ip, the (clase_ip B ip))) (filter (es_abc B) ips)"

text \<open>
  The receiving end of the pipe whose sending end is \<open>c\<close>, before anything has been
  received from it.
\<close>

definition tuberia :: "'m conn_send \<Rightarrow> 'm conn_recv" where
  "tuberia c = \<lparr>pendiente = enviado c, emisor_cerrado = cerrado c, rcerrado = False\<rparr>"

text \<open>
  An existing file with no marks: it is empty, or each of its lines is blank or is not
  a float.
\<close>

definition sin_notas :: "builtins \<Rightarrow> ficheros \<Rightarrow> string \<Rightarrow> bool" where
  "sin_notas B fs ruta =
     (case fs ruta of
        None \<Rightarrow> False
      | Some texto \<Rightarrow>
          list_all (\<lambda>l. strip l = [] \<or> py_float B (strip l) = None) (lineas (traducir_nl texto)))"

text \<open>
  The entry that the parent records for a worker, given the receiving end of its pipe
  after the join: the first message waiting there, or the marker when there is none.
\<close>

definition entrada_de :: "mensaje_vocal conn_recv \<Rightarrow> info" where
  "entrada_de cr =
     (case pendiente cr of
        [] \<Rightarrow> marca_error
      | (vocal, c, p, d) # _ \<Rightarrow> \<lparr>conteo = c, pid = Some p, dur = Some d\<rparr>)"

text \<open>
  A well-formed line of the file of means: after the surrounding whitespace is removed,
  a float, whitespace and a name. \<open>bien_formadas\<close> lists the number and the name of
  the well-formed lines, in the order of the file.
\<close>

definition parse_linea :: "builtins \<Rightarrow> string \<Rightarrow> (pyfloat \<times> string) option" where
  "parse_linea B linea =
     (case split_max1 (strip linea) of
        [p0, nombre] \<Rightarrow> map_option (\<lambda>x. (x, nombre)) (py_float B p0)
      | _ \<Rightarrow> None)"

definition bien_formadas :: "builtins \<Rightarrow> string list \<Rightarrow> (pyfloat \<times> string) list" where
  "bien_formadas B ls = List.map_filter (parse_linea B) ls"

text \<open>One step of a running maximum: the new pair wins when there is none yet or its number is greater.\<close>

definition paso_max ::
  "pyfloat option \<times> string option \<Rightarrow> pyfloat \<times> string \<Rightarrow> pyfloat option \<times> string option" where
  "paso_max st par =
     (if (case fst st of None \<Rightarrow> True | Some m \<Rightarrow> fgt (fst par) m)
      then (Some (fst par), Some (snd par)) else st)"

text \<open>The comparison \<open>a <= b\<close> of two floats: false when one of them is NaN.\<close>

definition fle :: "pyfloat \<Rightarrow> pyfloat \<Rightarrow> bool" where
  "fle a b = (a \<noteq> NaN \<and> b \<noteq> NaN \<and> \<not> fgt a b)"

text \<open>
  The mean of the marks in the file \<open>ruta\<close>, as the averaging worker of the pool
  computes it: 0.0 when the file is absent or has no marks.
\<close>

definition media_de :: "builtins \<Rightarrow> ficheros \<Rightarrow> string \<Rightarrow> pyfloat" where
  "media_de B fs ruta =
     (case fs ruta of
        None \<Rightarrow> Fin 0
      | Some texto \<Rightarrow>
          (let notas = leer_notas B (lineas (traducir_nl texto)) []
           in if notas = [] then Fin 0
              else fdiv B (py_sum B notas) (Fin (real (length notas)))))"

text \<open>
  What holds of the slots of the pool while a batch runs and no task has failed: the
  completed tasks are distinct indices of tasks, the slot of a completed task holds the
  result of that task, run by its worker from some world that satisfies \<open>P\<close>, and the
  other slots are empty.
\<close>

definition pool_inv ::
  "('w \<Rightarrow> bool) \<Rightarrow> ('c \<Rightarrow> 'a \<Rightarrow> 'w \<Rightarrow> error + ('b \<times> 'w)) \<Rightarrow> 'a list \<Rightarrow> (nat \<Rightarrow> 'c)
     \<Rightarrow> 'b option list \<times> nat list \<times> error option \<times> 'w \<Rightarrow> bool" where
  "pool_inv P f tareas quien st =
     (case st of (huecos, hechas, fallo, w) \<Rightarrow>
        length huecos = length tareas \<and> distinct hechas \<and> set hechas \<subseteq> {0..<length tareas}
        \<and> fallo = None \<and> P w
        \<and> (\<forall>i \<in> set hechas.
              \<exists>r wi wi'. huecos ! i = Some r \<and> P wi \<and> f (quien i) (tareas ! i) wi = Inr (r, wi'))
        \<and> (\<forall>i < length tareas. i \<notin> set hechas \<longrightarrow> huecos ! i = None))"

text \<open>
  Two invariants of the processes that append to the file of means, when every input
  file is in \<open>fs0\<close> and none of them is the file of means. The first is about the
  phases and the lock: only the file of means changes, no process misses its file, a
  process that waits for the lock or holds it carries the line of its own file, and the
  lock is held exactly by the process that is inside \<open>with lock\<close>. The second is
  about the file of means while no process has been aborted: it is what it was at the
  start, then the whole lines of the processes that have finished, in some order, then
  the part already written of the line of the process that holds the lock.
\<close>

definition en_candado :: "fase \<Rightarrow> bool" where
  "en_candado f = (\<exists>l. f = ConCandado l \<or> f = Escribe l)"

definition inv_fases ::
  "builtins \<Rightarrow> (string \<times> string) list \<Rightarrow> string \<Rightarrow> ficheros \<Rightarrow> sistema \<Rightarrow> bool" where
  "inv_fases B tareas ruta_medias fs0 s =
     (length (fases s) = length tareas
      \<and> (\<forall>r. r \<noteq> ruta_medias \<longrightarrow> archivos s r = fs0 r)
      \<and> (\<forall>i < length tareas. fases s ! i \<noteq> SinFichero)
      \<and> (\<forall>i < length tareas. \<forall>l. fases s ! i = Listo l \<or> fases s ! i = ConCandado l
             \<longrightarrow> l = linea_de B fs0 (tareas ! i))
      \<and> (\<forall>i < length tareas. en_candado (fases s ! i) \<longleftrightarrow> candado s = Some i)
      \<and> (\<forall>i. candado s = Some i \<longrightarrow> i < length tareas))"

definition parte_escrita ::
  "builtins \<Rightarrow> (string \<times> string) list \<Rightarrow> ficheros \<Rightarrow> sistema \<Rightarrow> string \<Rightarrow> bool" where
  "parte_escrita B tareas fs0 s p =
     (case candado s of
        None \<Rightarrow> p = []
      | Some i \<Rightarrow>
          (case fases s ! i of
             Escribe r \<Rightarrow> p @ r = linea_de B fs0 (tareas ! i)
           | _ \<Rightarrow> p = []))"

definition inv_contenido ::
  "builtins \<Rightarrow> (string \<times> string) list \<Rightarrow> string \<Rightarrow> ficheros \<Rightarrow> sistema \<Rightarrow> bool" where
  "inv_contenido B tareas ruta_medias fs0 s =
     ((\<forall>i < length tareas. fases s ! i \<noteq> Abortado) \<longrightarrow>
      (\<exists>ord p. distinct ord
         \<and> set ord = {i. i < length tareas \<and> fases s ! i = Terminado}
         \<and> contenido (archivos s) ruta_medias
             = contenido fs0 ruta_medias @ concat (map (\<lambda>i. linea_de B fs0 (tareas ! i)) ord) @ p
         \<and> parte_escrita B tareas fs0 s p))"

text \<open>
  The steps that a process still has to make, at most, when its line has \<open>n\<close>
  characters; \<open>pendientes\<close> adds them up over the processes.
\<close>

definition trabajo :: "nat \<Rightarrow> fase \<Rightarrow> nat" where
  "trabajo n f =
     (case f of
        Inicio \<Rightarrow> n + 4
      | Listo l \<Rightarrow> length l + 3
      | ConCandado l \<Rightarrow> length l + 2
      | Escribe r \<Rightarrow> length r + 1
      | _ \<Rightarrow> 0)"

definition pendientes ::
  "builtins \<Rightarrow> (string \<times> string) list \<Rightarrow> ficheros \<Rightarrow> sistema \<Rightarrow> nat" where
  "pendientes B tareas fs0 s =
     (\<Sum>i < length tareas. trabajo (length (linea_de B fs0 (tareas ! i))) (fases s ! i))"

section \<open>An instance of the builtins\<close>

text \<open>
  A simple instance of the parameters, to evaluate the model on concrete inputs:
  decimal literals without exponent or underscores, exact arithmetic on finite values,
  and formats that round half up. The theorems below hold for every instance.
\<close>

definition digito :: "char \<Rightarrow> nat option" where
  "digito c =
     (let n = (of_char c :: nat) in if 48 \<le> n \<and> n \<le> 57 then Some (n - 48) else None)"

fun nat_decimal :: "string \<Rightarrow> nat \<Rightarrow> nat option" where
  "nat_decimal [] acc = Some acc"
| "nat_decimal (c # cs) acc =
     (case digito c of
        None \<Rightarrow> None
      | Some d \<Rightarrow> nat_decimal cs (10 * acc + d))"

definition digitos :: "string \<Rightarrow> nat option" where
  "digitos s = (if s = [] then None else nat_decimal s 0)"

definition int_decimal :: "string \<Rightarrow> int option" where
  "int_decimal s =
     (case strip s of
        [] \<Rightarrow> None
      | c # r \<Rightarrow>
          if c = CHR ''-'' then map_option (\<lambda>n. - int n) (digitos r)
          else if c = CHR ''+'' then map_option int (digitos r)
          else map_option int (digitos (c # r)))"

definition magnitud_decimal :: "string \<Rightarrow> real option" where
  "magnitud_decimal s =
     (case split_on CHR ''.'' s of
        [a] \<Rightarrow> map_option real (digitos a)
      | [a, b] \<Rightarrow>
          (case (digitos a, digitos b) of
             (Some x, Some y) \<Rightarrow> Some (real x + real y / 10 ^ length b)
           | _ \<Rightarrow> None)
      | _ \<Rightarrow> None)"

definition float_decimal :: "string \<Rightarrow> pyfloat option" where
  "float_decimal s =
     (let u = lower (strip s) in
      if u = ''nan'' then Some NaN
      else if u = ''inf'' then Some PInf
      else if u = ''-inf'' then Some NInf
      else (case u of
              [] \<Rightarrow> None
            | c # r \<Rightarrow>
                if c = CHR ''-'' then map_option (\<lambda>x. Fin (- x)) (magnitud_decimal r)
                else map_option Fin (magnitud_decimal u)))"

definition fmt_decimales :: "nat \<Rightarrow> pyfloat \<Rightarrow> string" where
  "fmt_decimales k x =
     (case x of
        NaN \<Rightarrow> ''nan''
      | PInf \<Rightarrow> ''inf''
      | NInf \<Rightarrow> ''-inf''
      | Fin r \<Rightarrow>
          (let c = (\<lfloor>\<bar>r\<bar> * 10 ^ k + 1 / 2\<rfloor> :: int)
           in (if r < 0 then ''-'' else []) @ show_int (c div 10 ^ k) @ ''.''
              @ map (\<lambda>j. digit_char (nat (c div 10 ^ (k - 1 - j) mod 10))) [0..<k]))"

fun op_finita :: "(real \<Rightarrow> real \<Rightarrow> real) \<Rightarrow> pyfloat \<Rightarrow> pyfloat \<Rightarrow> pyfloat" where
  "op_finita f (Fin a) (Fin b) = Fin (f a b)"
| "op_finita f _ _ = NaN"

definition builtins_ref :: builtins where
  "builtins_ref =
     \<lparr>py_int = int_decimal, py_float = float_decimal,
      fadd = op_finita (+), fsub = op_finita (-), fdiv = op_finita (/),
      round2 = (\<lambda>x. case x of Fin r \<Rightarrow> Fin (real_of_int \<lfloor>r * 100 + 1 / 2\<rfloor> / 100) | _ \<Rightarrow> x),
      fmt_2f = fmt_decimales 2, fmt_6f = fmt_decimales 6, fstr = fmt_decimales 2\<rparr>"

definition entorno_ref :: "nat \<Rightarrow> entorno" where
  "entorno_ref p = \<lparr>getpid = p, perf_t0 = Fin 1, perf_t1 = Fin 2\<rparr>"

section \<open>Properties of EJ2\<close>

lemma split_on_cabeza:
  "\<exists>ws. split_on sep s = takeWhile (\<lambda>c. c \<noteq> sep) s # ws"
  by (induction s) auto

lemma clase_ip_campo:
  "clase_ip B ip =
     (case py_int B (primer_campo ip) of
        None \<Rightarrow> None
      | Some n \<Rightarrow>
          if 1 \<le> n \<and> n \<le> 126 then Some CHR ''A''
          else if 128 \<le> n \<and> n \<le> 191 then Some CHR ''B''
          else if 192 \<le> n \<and> n \<le> 223 then Some CHR ''C''
          else if 224 \<le> n \<and> n \<le> 239 then Some CHR ''D''
          else if 240 \<le> n \<and> n \<le> 254 then Some CHR ''E''
          else None)"
proof -
  obtain ws where "split_on CHR ''.'' ip = primer_campo ip # ws"
    using split_on_cabeza [of "CHR ''.''" ip] by (auto simp: primer_campo_def)
  then show ?thesis
    by (simp add: clase_ip_def split: option.splits)
qed

text \<open>
  C9. For every string, \<open>clase_ip\<close> gives \<open>A\<close> exactly when the first field parses
  to an integer from 1 to 126, \<open>B\<close> for 128 to 191, \<open>C\<close> for 192 to 223, \<open>D\<close> for
  224 to 239, \<open>E\<close> for 240 to 254, and \<open>None\<close> in every other case: the field does
  not parse, or it parses to 127, to zero or less, or to 255 or more. The result is
  always one of these six values; no exception leaves the function.
\<close>

theorem clase_ip_total:
  "(clase_ip B ip = Some CHR ''A'' \<longleftrightarrow> (\<exists>n. py_int B (primer_campo ip) = Some n \<and> 1 \<le> n \<and> n \<le> 126))
   \<and> (clase_ip B ip = Some CHR ''B'' \<longleftrightarrow> (\<exists>n. py_int B (primer_campo ip) = Some n \<and> 128 \<le> n \<and> n \<le> 191))
   \<and> (clase_ip B ip = Some CHR ''C'' \<longleftrightarrow> (\<exists>n. py_int B (primer_campo ip) = Some n \<and> 192 \<le> n \<and> n \<le> 223))
   \<and> (clase_ip B ip = Some CHR ''D'' \<longleftrightarrow> (\<exists>n. py_int B (primer_campo ip) = Some n \<and> 224 \<le> n \<and> n \<le> 239))
   \<and> (clase_ip B ip = Some CHR ''E'' \<longleftrightarrow> (\<exists>n. py_int B (primer_campo ip) = Some n \<and> 240 \<le> n \<and> n \<le> 254))
   \<and> (clase_ip B ip = None \<longleftrightarrow>
        (py_int B (primer_campo ip) = None
         \<or> (\<exists>n. py_int B (primer_campo ip) = Some n \<and> (n \<le> 0 \<or> n = 127 \<or> 255 \<le> n))))
   \<and> clase_ip B ip \<in> {None, Some CHR ''A'', Some CHR ''B'', Some CHR ''C'', Some CHR ''D'', Some CHR ''E''}"
proof (cases "py_int B (primer_campo ip)")
  case None
  then show ?thesis by (simp add: clase_ip_campo)
next
  case (Some n)
  then show ?thesis by (simp add: clase_ip_campo) arith
qed

theorem clase_ip_total_witness:
  "clase_ip builtins_ref ''192.168.1.1'' = Some CHR ''C''
   \<and> clase_ip builtins_ref ''127.0.0.1'' = None
   \<and> clase_ip builtins_ref ''x.1'' = None
   \<and> py_int builtins_ref (primer_campo ''192.168.1.1'') = Some 192"
proof -
  have campo: "py_int builtins_ref (primer_campo ''192.168.1.1'') = Some 192"
    by code_simp
  have "clase_ip builtins_ref ''192.168.1.1'' = Some CHR ''C''"
    using clase_ip_total [of builtins_ref "''192.168.1.1''"] campo by simp
  moreover have "clase_ip builtins_ref ''127.0.0.1'' = None"
    by code_simp
  moreover have "clase_ip builtins_ref ''x.1'' = None"
    by code_simp
  ultimately show ?thesis using campo by simp
qed

lemma supervivientes_Cons:
  "supervivientes B (ip # ips) =
     (case clase_ip B ip of
        None \<Rightarrow> supervivientes B ips
      | Some cl \<Rightarrow>
          if cl \<in> {CHR ''A'', CHR ''B'', CHR ''C''} then (ip, cl) # supervivientes B ips
          else supervivientes B ips)"
  by (auto simp: supervivientes_def es_abc_def split: option.splits)

lemma supervivientes_Nil: "supervivientes B [] = []"
  by (simp add: supervivientes_def)

lemma filtrar_bucle_run:
  assumes "\<not> rcerrado cr" and "\<not> cerrado cs"
    and "pendiente cr = map Some ips @ None # resto"
  shows "filtrar_bucle B cr cs r f =
           Inr (cr\<lparr>pendiente := resto\<rparr>,
                cs\<lparr>enviado := enviado cs @ map Some (supervivientes B ips)\<rparr>,
                r + length ips, f + length (supervivientes B ips))"
  using assms
proof (induction ips arbitrary: cr cs r f)
  case Nil
  then show ?case
    by (subst filtrar_bucle.simps) (simp add: recv_def supervivientes_Nil)
next
  case (Cons ip ips)
  let ?cr = "cr\<lparr>pendiente := map Some ips @ None # resto\<rparr>"
  have rec: "recv cr = Inr (Some ip, ?cr)"
    using Cons.prems by (simp add: recv_def)
  have cr': "\<not> rcerrado ?cr" "pendiente ?cr = map Some ips @ None # resto"
    using Cons.prems by simp_all
  show ?case
  proof (cases "clase_ip B ip")
    case None
    then show ?thesis
      using Cons.IH [OF cr'(1) Cons.prems(2) cr'(2), of "r + 1" f] rec
      by (subst filtrar_bucle.simps) (simp add: supervivientes_Cons)
  next
    case (Some cl)
    show ?thesis
    proof (cases "cl \<in> {CHR ''A'', CHR ''B'', CHR ''C''}")
      case True
      let ?cs = "cs\<lparr>enviado := enviado cs @ [Some (ip, cl)]\<rparr>"
      have env: "send cs (Some (ip, cl)) = Inr ?cs"
        using Cons.prems by (simp add: send_def)
      have cs': "\<not> cerrado ?cs" using Cons.prems by simp
      show ?thesis
        using Cons.IH [OF cr'(1) cs' cr'(2), of "r + 1" "f + 1"] rec Some True env
        by (subst filtrar_bucle.simps) (simp add: supervivientes_Cons)
    next
      case False
      then show ?thesis
        using Cons.IH [OF cr'(1) Cons.prems(2) cr'(2), of "r + 1" f] rec Some
        by (subst filtrar_bucle.simps) (simp add: supervivientes_Cons)
    qed
  qed
qed

lemma imprimir_bucle_run:
  assumes "\<not> rcerrado cr" and "pendiente cr = map Some items @ None # resto"
  shows "imprimir_bucle E cr salida k =
           Inr (cr\<lparr>pendiente := resto\<rparr>, salida @ map (linea_ip E) items, k + length items)"
  using assms
proof (induction items arbitrary: cr salida k)
  case Nil
  then show ?case
    by (subst imprimir_bucle.simps) (simp add: recv_def)
next
  case (Cons item items)
  let ?cr = "cr\<lparr>pendiente := map Some items @ None # resto\<rparr>"
  have rec: "recv cr = Inr (Some item, ?cr)"
    using Cons.prems by (simp add: recv_def)
  have cr': "\<not> rcerrado ?cr" "pendiente ?cr = map Some items @ None # resto"
    using Cons.prems by simp_all
  show ?case
    using Cons.IH [OF cr', of "salida @ [linea_ip E item]" "k + 1"] rec
    by (subst imprimir_bucle.simps) simp
qed


lemma enviar_todos_run:
  "\<not> cerrado c \<Longrightarrow> enviar_todos c ms k = Inr (c\<lparr>enviado := enviado c @ ms\<rparr>, k + length ms)"
  by (induction ms arbitrary: c k) (simp_all add: send_def)

lemma generar_ips_envia:
  "\<exists>salida c. generar_ips B E azar n nuevo_send = Inr (salida, c)
     \<and> enviado c = map Some (map (ip_aleatoria azar) [0..<n]) @ [None] \<and> cerrado c"
  by (simp add: generar_ips_def enviar_todos_run nuevo_send_def send_def close_send_def comp_def)

lemma count_list_centinela: "count_list (map Some xs @ [None]) None = 1"
  by (induction xs) simp_all

lemma map_filter_centinela: "List.map_filter id (map Some xs @ [None]) = xs"
  by (induction xs) (simp_all add: List.map_filter_simps)

lemma filtrar_ips_run:
  assumes "pendiente cr = map Some ips @ [None]" and "\<not> rcerrado cr"
  shows "filtrar_ips B E cr nuevo_send =
           Inr ([''[P2 PID '' @ show_nat (getpid E) @ ''] Filtro termin'' @ [CHR 0xF3]
                   @ ''. Recibidas: '' @ show_nat (length ips) @ ''. Reenviadas: ''
                   @ show_nat (length (supervivientes B ips)) @ ''. Tiempo: ''
                   @ fmt_6f B (dur_de B E) @ '' s''],
                cr\<lparr>pendiente := [], rcerrado := True\<rparr>,
                \<lparr>enviado = map Some (supervivientes B ips) @ [None], cerrado = True\<rparr>)"
proof -
  have "filtrar_bucle B cr nuevo_send 0 0 =
          Inr (cr\<lparr>pendiente := []\<rparr>,
               nuevo_send\<lparr>enviado := enviado nuevo_send @ map Some (supervivientes B ips)\<rparr>,
               0 + length ips, 0 + length (supervivientes B ips))"
    by (rule filtrar_bucle_run) (use assms in \<open>simp_all add: nuevo_send_def\<close>)
  then show ?thesis
    by (simp add: filtrar_ips_def nuevo_send_def send_def close_send_def close_recv_def)
qed

lemma imprimir_ips_run:
  assumes "pendiente cr = map Some items @ [None]" and "\<not> rcerrado cr"
  shows "imprimir_ips B E cr =
           Inr (map (linea_ip E) items
                @ [''[P3 PID '' @ show_nat (getpid E) @ ''] Imprimir termin'' @ [CHR 0xF3]
                     @ ''. IPs procesadas: '' @ show_nat (length items) @ ''. Tiempo: ''
                     @ fmt_6f B (dur_de B E) @ '' s''],
                cr\<lparr>pendiente := [], rcerrado := True\<rparr>)"
proof -
  have "imprimir_bucle E cr [] 0 =
          Inr (cr\<lparr>pendiente := []\<rparr>, [] @ map (linea_ip E) items, 0 + length items)"
    by (rule imprimir_bucle_run) (use assms in simp_all)
  then show ?thesis
    by (simp add: imprimir_ips_def close_recv_def)
qed

text \<open>
  C1. Let the filter stage receive any finite sequence of addresses followed by one
  sentinel. Then \<open>filtrar_ips\<close> returns: it has read everything up to the sentinel,
  it has sent the surviving messages followed by exactly one sentinel, and it has closed
  both ends. The printer, reading what the filter sent, returns too, after it has
  consumed that one sentinel. The generator sends such a sequence
  (\<open>generar_ips_envia\<close>).
\<close>

theorem filtrar_ips_centinela:
  assumes "pendiente cr = map Some ips @ [None]" and "\<not> rcerrado cr"
  shows "\<exists>salida cr' cs'.
           filtrar_ips B E cr nuevo_send = Inr (salida, cr', cs')
           \<and> pendiente cr' = []
           \<and> enviado cs' = map Some (supervivientes B ips) @ [None]
           \<and> count_list (enviado cs') None = 1
           \<and> rcerrado cr' \<and> cerrado cs'
           \<and> (\<exists>salida3 cr3. imprimir_ips B E3 (tuberia cs') = Inr (salida3, cr3)
                  \<and> pendiente cr3 = [] \<and> rcerrado cr3)"
proof -
  let ?cs = "\<lparr>enviado = map Some (supervivientes B ips) @ [None], cerrado = True\<rparr>"
  have p: "pendiente (tuberia ?cs) = map Some (supervivientes B ips) @ [None]"
    and q: "\<not> rcerrado (tuberia ?cs)"
    by (simp_all add: tuberia_def)
  show ?thesis
    using filtrar_ips_run [OF assms, of B E] imprimir_ips_run [OF p q, of B E3]
    by (simp add: count_list_centinela)
qed

text \<open>
  C5. For every sequence of addresses followed by the sentinel, the messages that
  \<open>filtrar_ips\<close> sends before its sentinel are the addresses of class A, B or C,
  each with its class, in the order in which they were received; and the printer prints
  one line for each of them, in that same order.
\<close>

theorem filtrar_ips_orden:
  assumes "pendiente cr = map Some ips @ [None]" and "\<not> rcerrado cr"
  shows "\<exists>salida cr' cs'.
           filtrar_ips B E cr nuevo_send = Inr (salida, cr', cs')
           \<and> List.map_filter id (enviado cs') = supervivientes B ips
           \<and> map fst (supervivientes B ips)
               = filter (\<lambda>ip. clase_ip B ip \<in> {Some CHR ''A'', Some CHR ''B'', Some CHR ''C''}) ips
           \<and> map snd (supervivientes B ips) = map (\<lambda>ip. the (clase_ip B ip)) (map fst (supervivientes B ips))
           \<and> (\<exists>fin cr3. imprimir_ips B E3 (tuberia cs')
                  = Inr (map (linea_ip E3) (supervivientes B ips) @ [fin], cr3))"
proof -
  let ?cs = "\<lparr>enviado = map Some (supervivientes B ips) @ [None], cerrado = True\<rparr>"
  have p: "pendiente (tuberia ?cs) = map Some (supervivientes B ips) @ [None]"
    and q: "\<not> rcerrado (tuberia ?cs)"
    by (simp_all add: tuberia_def)
  have f: "map fst (supervivientes B ips)
             = filter (\<lambda>ip. clase_ip B ip \<in> {Some CHR ''A'', Some CHR ''B'', Some CHR ''C''}) ips"
    by (simp add: supervivientes_def comp_def es_abc_def [abs_def])
  have g: "map snd (supervivientes B ips) = map (\<lambda>ip. the (clase_ip B ip)) (map fst (supervivientes B ips))"
    by (simp add: supervivientes_def comp_def)
  show ?thesis
    using filtrar_ips_run [OF assms, of B E] imprimir_ips_run [OF p q, of B E3] f g
    by (simp add: map_filter_centinela)
qed



theorem filtrar_ips_centinela_witness:
  "\<exists>s1 c1 s2 cr2 cs2 s3 cr3.
     generar_ips builtins_ref (entorno_ref 1) (\<lambda>k. 59 * k) 3 nuevo_send = Inr (s1, c1)
     \<and> filtrar_ips builtins_ref (entorno_ref 2) (tuberia c1) nuevo_send = Inr (s2, cr2, cs2)
     \<and> pendiente cr2 = []
     \<and> enviado cs2 = [Some (''1.60.119.178'', CHR ''A''), Some (''219.24.83.142'', CHR ''C''), None]
     \<and> count_list (enviado cs2) None = 1
     \<and> imprimir_ips builtins_ref (entorno_ref 3) (tuberia cs2) = Inr (s3, cr3)
     \<and> pendiente cr3 = []"
proof -
  let ?ips = "map (ip_aleatoria (\<lambda>k. 59 * k)) [0..<3]"
  obtain s1 c1 where g: "generar_ips builtins_ref (entorno_ref 1) (\<lambda>k. 59 * k) 3 nuevo_send = Inr (s1, c1)"
    and e: "enviado c1 = map Some ?ips @ [None]"
    using generar_ips_envia [of builtins_ref "entorno_ref 1" "\<lambda>k. 59 * k" 3] by blast
  have p: "pendiente (tuberia c1) = map Some ?ips @ [None]" and q: "\<not> rcerrado (tuberia c1)"
    using e by (simp_all add: tuberia_def)
  have sup: "supervivientes builtins_ref ?ips
               = [(''1.60.119.178'', CHR ''A''), (''219.24.83.142'', CHR ''C'')]"
    by code_simp
  show ?thesis
    using filtrar_ips_centinela [OF p q, of builtins_ref "entorno_ref 2" "entorno_ref 3"] g
    unfolding sup by auto
qed


theorem filtrar_ips_orden_witness:
  "\<exists>salida cr' cs' fin cr3.
     filtrar_ips builtins_ref (entorno_ref 2)
         (nuevo_recv [Some ''200.1.1.1'', Some ''230.0.0.1'', Some ''10.0.0.1'', None]) nuevo_send
       = Inr (salida, cr', cs')
     \<and> List.map_filter id (enviado cs') = [(''200.1.1.1'', CHR ''C''), (''10.0.0.1'', CHR ''A'')]
     \<and> imprimir_ips builtins_ref (entorno_ref 3) (tuberia cs')
         = Inr ([''[P3 PID 3] 200.1.1.1 -> Clase C'', ''[P3 PID 3] 10.0.0.1 -> Clase A'', fin], cr3)"
proof -
  let ?ips = "[''200.1.1.1'', ''230.0.0.1'', ''10.0.0.1'']"
  let ?cr = "nuevo_recv [Some ''200.1.1.1'', Some ''230.0.0.1'', Some ''10.0.0.1'', None]"
  have p: "pendiente ?cr = map Some ?ips @ [None]" and q: "\<not> rcerrado ?cr"
    by (simp_all add: nuevo_recv_def)
  have sup: "supervivientes builtins_ref ?ips = [(''200.1.1.1'', CHR ''C''), (''10.0.0.1'', CHR ''A'')]"
    by code_simp
  have l1: "linea_ip (entorno_ref 3) (''200.1.1.1'', CHR ''C'') = ''[P3 PID 3] 200.1.1.1 -> Clase C''"
    and l2: "linea_ip (entorno_ref 3) (''10.0.0.1'', CHR ''A'') = ''[P3 PID 3] 10.0.0.1 -> Clase A''"
    by code_simp+
  show ?thesis
    using filtrar_ips_orden [OF p q, of builtins_ref "entorno_ref 2" "entorno_ref 3"]
    unfolding sup by (auto simp: l1 l2)
qed

section \<open>Properties of the workers on missing or empty input\<close>

lemma media_notas_total: "\<exists>m. media_notas B notas = Inr m"
  by (cases notas) (simp_all add: media_notas_def truediv_def)

lemma leer_notas_sin:
  "list_all (\<lambda>l. strip l = [] \<or> py_float B (strip l) = None) ls \<Longrightarrow> leer_notas B ls notas = notas"
  by (induction ls arbitrary: notas) (auto simp: Let_def)

lemma leer_lineas_casos:
  "leer_lineas fs ruta = Inl FileNotFoundError \<or> (\<exists>ls. leer_lineas fs ruta = Inr ls)"
  by (simp add: leer_lineas_def split: option.splits)

text \<open>
  C10. In both averaging workers the mean is computed by \<open>media_notas\<close>, which
  divides only when the list of marks is not empty: it always gives a value, although
  the division itself raises \<open>ZeroDivisionError\<close> for a zero divisor. So
  \<open>calcular_media_pool\<close> returns a result on every input and
  \<open>calcular_media_y_apendar\<close> never raises \<open>ZeroDivisionError\<close>. For an existing
  file that is empty or has only lines that are not numbers, the mean is exactly 0.0 in
  both workers.
\<close>

theorem media_guardada:
  "(\<exists>m. media_notas B notas = Inr m)
   \<and> truediv B x 0 = Inl ZeroDivisionError
   \<and> (\<exists>r. calcular_media_pool B E fs args = Inr r)
   \<and> calcular_media_y_apendar B E fs lock ruta nombre ruta_medias \<noteq> Inl ZeroDivisionError
   \<and> (sin_notas B fs ruta \<longrightarrow>
        calcular_media_pool B E fs (ruta, nombre) = Inr (Fin 0, nombre, dur_de B E, getpid E)
        \<and> (\<exists>salida. calcular_media_y_apendar B E fs False ruta nombre ruta_medias
              = Inr (salida, apendar fs ruta_medias (linea_media B (Fin 0) nombre), False)))"
proof (intro conjI impI)
  show "\<exists>m. media_notas B notas = Inr m" by (rule media_notas_total)
next
  show "truediv B x 0 = Inl ZeroDivisionError" by (simp add: truediv_def)
next
  obtain r n where args: "args = (r, n)" by (cases args)
  show "\<exists>r. calcular_media_pool B E fs args = Inr r"
  proof (cases "fs r")
    case None
    then show ?thesis by (simp add: calcular_media_pool_def args leer_lineas_def)
  next
    case (Some texto)
    obtain m where "media_notas B (leer_notas B (lineas (traducir_nl texto)) []) = Inr m"
      using media_notas_total by blast
    with Some show ?thesis by (simp add: calcular_media_pool_def args leer_lineas_def)
  qed
next
  show "calcular_media_y_apendar B E fs lock ruta nombre ruta_medias \<noteq> Inl ZeroDivisionError"
  proof (cases "fs ruta")
    case None
    then show ?thesis by (simp add: calcular_media_y_apendar_def leer_lineas_def)
  next
    case (Some texto)
    obtain m where "media_notas B (leer_notas B (lineas (traducir_nl texto)) []) = Inr m"
      using media_notas_total by blast
    with Some show ?thesis by (simp add: calcular_media_y_apendar_def leer_lineas_def)
  qed
next
  assume "sin_notas B fs ruta"
  then obtain texto where t: "fs ruta = Some texto"
    and "list_all (\<lambda>l. strip l = [] \<or> py_float B (strip l) = None) (lineas (traducir_nl texto))"
    by (auto simp: sin_notas_def split: option.splits)
  then have n: "leer_notas B (lineas (traducir_nl texto)) [] = []"
    by (simp add: leer_notas_sin)
  show "calcular_media_pool B E fs (ruta, nombre) = Inr (Fin 0, nombre, dur_de B E, getpid E)"
    using t n by (simp add: calcular_media_pool_def leer_lineas_def media_notas_def)
  show "\<exists>salida. calcular_media_y_apendar B E fs False ruta nombre ruta_medias
          = Inr (salida, apendar fs ruta_medias (linea_media B (Fin 0) nombre), False)"
    using t n by (simp add: calcular_media_y_apendar_def leer_lineas_def media_notas_def)
qed


theorem media_guardada_witness:
  "sin_notas builtins_ref [''Alumno1.txt'' \<mapsto> ''hola'' @ [CHR 0x0A] @ ''  '' @ [CHR 0x0A]] ''Alumno1.txt''
   \<and> calcular_media_pool builtins_ref (entorno_ref 4)
         [''Alumno1.txt'' \<mapsto> ''hola'' @ [CHR 0x0A] @ ''  '' @ [CHR 0x0A]] (''Alumno1.txt'', ''Alumno1'')
       = Inr (Fin 0, ''Alumno1'', Fin 1, 4)"
proof -
  let ?fs = "[''Alumno1.txt'' \<mapsto> ''hola'' @ [CHR 0x0A] @ ''  '' @ [CHR 0x0A]]"
  have s: "sin_notas builtins_ref ?fs ''Alumno1.txt''"
    by code_simp
  have d: "dur_de builtins_ref (entorno_ref 4) = Fin 1" "getpid (entorno_ref 4) = 4"
    by (simp_all add: dur_de_def builtins_ref_def entorno_ref_def)
  show ?thesis
    using media_guardada [of builtins_ref "[]" "Fin 0" "entorno_ref 4" ?fs "(''Alumno1.txt'', ''Alumno1'')"
        False "''Alumno1.txt''" "''Alumno1''" "''medias.txt''"] s d
    by simp
qed

lemma contar_lineas_mono: "k \<le> contar_lineas vocal ls k"
proof (induction ls arbitrary: k)
  case Nil
  show ?case by simp
next
  case (Cons l ls)
  have "k \<le> k + int (count_str (lower l) (lower vocal))" by simp
  also have "\<dots> \<le> contar_lineas vocal ls (k + int (count_str (lower l) (lower vocal)))"
    by (rule Cons.IH)
  finally show ?case by simp
qed

text \<open>
  C7, as amended. The vowel counter reports a missing file with the count -1, and for
  an existing file it reports a count that is not negative, so the two never coincide.
  The averaging worker of the pool has no such marker: for a missing file it returns
  the mean 0.0, which is also the mean it returns for an existing file with no marks.
\<close>

theorem marca_error_conteo:
  assumes "\<not> cerrado c"
  shows "(fs ruta = None \<longrightarrow>
            contar_vocal_pipe B E fs vocal ruta c
              = Inr (c\<lparr>enviado := enviado c @ [(vocal, - 1, getpid E, dur_de B E)], cerrado := True\<rparr>))
         \<and> (fs ruta \<noteq> None \<longrightarrow>
              (\<exists>n. 0 \<le> n \<and> contar_vocal_pipe B E fs vocal ruta c
                 = Inr (c\<lparr>enviado := enviado c @ [(vocal, n, getpid E, dur_de B E)], cerrado := True\<rparr>)))
         \<and> (fs ruta = None \<longrightarrow>
              calcular_media_pool B E fs (ruta, nombre) = Inr (Fin 0, nombre, Fin 0, getpid E))
         \<and> (sin_notas B fs ruta \<longrightarrow>
              calcular_media_pool B E fs (ruta, nombre) = Inr (Fin 0, nombre, dur_de B E, getpid E))"
proof (intro conjI impI)
  assume "fs ruta = None"
  then show "contar_vocal_pipe B E fs vocal ruta c
      = Inr (c\<lparr>enviado := enviado c @ [(vocal, - 1, getpid E, dur_de B E)], cerrado := True\<rparr>)"
    using assms by (simp add: contar_vocal_pipe_def leer_lineas_def send_def close_send_def)
next
  assume "fs ruta \<noteq> None"
  then obtain texto where t: "fs ruta = Some texto" by blast
  let ?n = "contar_lineas vocal (lineas (traducir_nl texto)) 0"
  have "0 \<le> ?n" by (rule contar_lineas_mono)
  moreover have "contar_vocal_pipe B E fs vocal ruta c
      = Inr (c\<lparr>enviado := enviado c @ [(vocal, ?n, getpid E, dur_de B E)], cerrado := True\<rparr>)"
    using assms t by (simp add: contar_vocal_pipe_def leer_lineas_def send_def close_send_def)
  ultimately show "\<exists>n. 0 \<le> n \<and> contar_vocal_pipe B E fs vocal ruta c
      = Inr (c\<lparr>enviado := enviado c @ [(vocal, n, getpid E, dur_de B E)], cerrado := True\<rparr>)"
    by blast
next
  assume "fs ruta = None"
  then show "calcular_media_pool B E fs (ruta, nombre) = Inr (Fin 0, nombre, Fin 0, getpid E)"
    by (simp add: calcular_media_pool_def leer_lineas_def)
next
  assume "sin_notas B fs ruta"
  then show "calcular_media_pool B E fs (ruta, nombre) = Inr (Fin 0, nombre, dur_de B E, getpid E)"
    using media_notas_total leer_notas_sin [of B _ "[]"]
    by (auto simp: sin_notas_def calcular_media_pool_def leer_lineas_def media_notas_def
        split: option.splits)
qed

text \<open>
  The claim C7 as stated fails: for a missing file and for an existing empty file the
  averaging worker of the pool returns the same mean, 0.0, with the same name, and the
  line written to the file of means is the same.
\<close>

theorem media_cero_indistinguible:
  "calcular_media_pool builtins_ref (entorno_ref 5) Map.empty (''Alumno1.txt'', ''Alumno1'')
     = Inr (Fin 0, ''Alumno1'', Fin 0, 5)
   \<and> calcular_media_pool builtins_ref (entorno_ref 5) [''Alumno1.txt'' \<mapsto> []] (''Alumno1.txt'', ''Alumno1'')
     = Inr (Fin 0, ''Alumno1'', Fin 1, 5)
   \<and> texto_medias builtins_ref [(Fin 0, ''Alumno1'', Fin 0, 5)]
     = texto_medias builtins_ref [(Fin 0, ''Alumno1'', Fin 1, 5)]"
  by (simp add: calcular_media_pool_def leer_lineas_def media_notas_def dur_de_def
      builtins_ref_def entorno_ref_def texto_medias_def)

theorem marca_error_conteo_witness:
  "contar_vocal_pipe builtins_ref (entorno_ref 3) Map.empty ''a'' ''texto.txt'' nuevo_send
     = Inr \<lparr>enviado = [(''a'', - 1, 3, Fin 1)], cerrado = True\<rparr>
   \<and> contar_vocal_pipe builtins_ref (entorno_ref 3) [''texto.txt'' \<mapsto> ''xyz''] ''a'' ''texto.txt'' nuevo_send
     = Inr \<lparr>enviado = [(''a'', 0, 3, Fin 1)], cerrado = True\<rparr>"
proof -
  have a: "\<not> cerrado (nuevo_send :: mensaje_vocal conn_send)"
    by (simp add: nuevo_send_def)
  have d: "dur_de builtins_ref (entorno_ref 3) = Fin 1" "getpid (entorno_ref 3) = 3"
    by (simp_all add: dur_de_def builtins_ref_def entorno_ref_def)
  have "contar_vocal_pipe builtins_ref (entorno_ref 3) Map.empty ''a'' ''texto.txt'' nuevo_send
     = Inr \<lparr>enviado = [(''a'', - 1, 3, Fin 1)], cerrado = True\<rparr>"
    using marca_error_conteo [OF a, of Map.empty "''texto.txt''" builtins_ref "entorno_ref 3" "''a''"] d
    by (simp add: nuevo_send_def)
  moreover have "contar_vocal_pipe builtins_ref (entorno_ref 3) [''texto.txt'' \<mapsto> ''xyz''] ''a'' ''texto.txt'' nuevo_send
     = Inr \<lparr>enviado = [(''a'', 0, 3, Fin 1)], cerrado = True\<rparr>"
    by code_simp
  ultimately show ?thesis by simp
qed


text \<open>
  C4, as amended. When the input file is absent, none of the three workers raises. The
  vowel counter sends the tuple with the count -1 and closes its end. The film filter
  prints the error, sends the sentinel and nothing else, and closes its end. The
  averaging worker of EJ3A prints the error and returns: the files and the lock are as
  they were.
\<close>

theorem entrada_ausente:
  assumes "fs ruta = None" and "\<not> cerrado cv" and "\<not> cerrado cp"
  shows "contar_vocal_pipe B E fs vocal ruta cv
           = Inr (cv\<lparr>enviado := enviado cv @ [(vocal, - 1, getpid E, dur_de B E)], cerrado := True\<rparr>)
         \<and> proceso_filtrar_por_anyo B E fs ruta anyo cp
           = ([''[P1 PID '' @ show_nat (getpid E) @ ''] Error: fichero no encontrado: '' @ ruta,
               ''[P1 PID '' @ show_nat (getpid E) @ ''] Filtrado terminado. Enviadas: ''
                 @ show_nat 0 @ ''. Tiempo: '' @ fmt_6f B (dur_de B E) @ '' s''],
              cp\<lparr>enviado := enviado cp @ [None], cerrado := True\<rparr>)
         \<and> calcular_media_y_apendar B E fs lock ruta nombre ruta_medias
           = Inr ([''[P-MED PID '' @ show_nat (getpid E) @ ''] Error: fichero '' @ ruta
                     @ '' no encontrado.''], fs, lock)"
proof (intro conjI)
  show "contar_vocal_pipe B E fs vocal ruta cv
      = Inr (cv\<lparr>enviado := enviado cv @ [(vocal, - 1, getpid E, dur_de B E)], cerrado := True\<rparr>)"
    using assms by (simp add: contar_vocal_pipe_def leer_lineas_def send_def close_send_def)
next
  show "proceso_filtrar_por_anyo B E fs ruta anyo cp
           = ([''[P1 PID '' @ show_nat (getpid E) @ ''] Error: fichero no encontrado: '' @ ruta,
               ''[P1 PID '' @ show_nat (getpid E) @ ''] Filtrado terminado. Enviadas: ''
                 @ show_nat 0 @ ''. Tiempo: '' @ fmt_6f B (dur_de B E) @ '' s''],
              cp\<lparr>enviado := enviado cp @ [None], cerrado := True\<rparr>)"
    using assms
    by (simp add: proceso_filtrar_por_anyo_def leer_lineas_def send_def close_send_def
        del: show_nat.simps)
next
  show "calcular_media_y_apendar B E fs lock ruta nombre ruta_medias
           = Inr ([''[P-MED PID '' @ show_nat (getpid E) @ ''] Error: fichero '' @ ruta
                     @ '' no encontrado.''], fs, lock)"
    using assms by (simp add: calcular_media_y_apendar_def leer_lineas_def del: show_nat.simps)
qed

theorem entrada_ausente_witness:
  "contar_vocal_pipe builtins_ref (entorno_ref 3) Map.empty ''a'' ''nada.txt'' nuevo_send
     = Inr \<lparr>enviado = [(''a'', - 1, 3, Fin 1)], cerrado = True\<rparr>
   \<and> snd (proceso_filtrar_por_anyo builtins_ref (entorno_ref 3) Map.empty ''nada.txt'' 1999 nuevo_send)
     = \<lparr>enviado = [None], cerrado = True\<rparr>
   \<and> map_sum id snd (calcular_media_y_apendar builtins_ref (entorno_ref 3) Map.empty False
         ''nada.txt'' ''Alumno1'' ''medias.txt'')
     = Inr (Map.empty, False)"
proof -
  have a: "\<not> cerrado (nuevo_send :: mensaje_vocal conn_send)"
    and b: "\<not> cerrado (nuevo_send :: string option conn_send)"
    by (simp_all add: nuevo_send_def)
  have d: "dur_de builtins_ref (entorno_ref 3) = Fin 1" "getpid (entorno_ref 3) = 3"
    by (simp_all add: dur_de_def builtins_ref_def entorno_ref_def)
  have n: "Map.empty ''nada.txt'' = (None :: string option)" by simp
  show ?thesis
    using entrada_ausente [OF n a b, where B = builtins_ref and E = "entorno_ref 3"
        and vocal = "''a''" and anyo = 1999 and lock = False and nombre = "''Alumno1''"
        and ruta_medias = "''medias.txt''"] d
    by (simp add: nuevo_send_def)
qed

text \<open>
  The claim C4 as stated fails for two of the three workers: no error value is reported.
  The film filter sends the same messages, the sentinel alone, for an absent file and for
  an existing empty file; the averaging worker of EJ3A leaves the files and the lock
  untouched.
\<close>

theorem ausente_sin_valor_de_error:
  "snd (proceso_filtrar_por_anyo builtins_ref (entorno_ref 1) Map.empty ''pelis.txt'' 1999 nuevo_send)
     = \<lparr>enviado = [None], cerrado = True\<rparr>
   \<and> snd (proceso_filtrar_por_anyo builtins_ref (entorno_ref 1) [''pelis.txt'' \<mapsto> []] ''pelis.txt'' 1999
          nuevo_send)
     = \<lparr>enviado = [None], cerrado = True\<rparr>
   \<and> map_sum id snd (calcular_media_y_apendar builtins_ref (entorno_ref 1) Map.empty False
         ''Alumno1.txt'' ''Alumno1'' ''medias.txt'')
     = Inr (Map.empty, False)"
  by (simp add: proceso_filtrar_por_anyo_def calcular_media_y_apendar_def leer_lineas_def
      send_def close_send_def nuevo_send_def del: show_nat.simps)

section \<open>Properties of EJ1\<close>

lemma update_nueva:
  "k \<notin> fst ` set al \<Longrightarrow> AList.update k v al = al @ [(k, v)]"
  by (induction al) auto

lemma recoger_uno_entrada:
  assumes "\<not> rcerrado cr" and "\<forall>m \<in> set (take 1 (pendiente cr)). fst m = v"
  shows "recoger_uno v cr resultados = Inr (AList.update v (entrada_de cr) resultados)"
proof (cases "pendiente cr")
  case Nil
  then show ?thesis
    using assms by (cases "emisor_cerrado cr") (simp_all add: recoger_uno_def poll_def recv_def entrada_de_def)
next
  case (Cons m ms)
  obtain vocal c p d where m: "m = (vocal, c, p, d)" by (cases m)
  with Cons assms have "vocal = v" by simp
  with Cons m assms show ?thesis
    by (simp add: recoger_uno_def poll_def recv_def entrada_de_def)
qed

lemma recoger_run:
  assumes "distinct (map fst procesos)"
    and "fst ` set procesos \<inter> fst ` set resultados = {}"
    and "\<forall>(v, cr) \<in> set procesos. \<not> rcerrado cr \<and> (\<forall>m \<in> set (take 1 (pendiente cr)). fst m = v)"
  shows "recoger procesos resultados
           = Inr (resultados @ map (\<lambda>(v, cr). (v, entrada_de cr)) procesos)"
  using assms
proof (induction procesos arbitrary: resultados)
  case Nil
  then show ?case by simp
next
  case (Cons p ps)
  obtain v cr where p: "p = (v, cr)" by (cases p)
  have uno: "recoger_uno v cr resultados = Inr (resultados @ [(v, entrada_de cr)])"
    using Cons.prems p by (simp add: recoger_uno_entrada update_nueva)
  have "recoger ps (resultados @ [(v, entrada_de cr)])
          = Inr ((resultados @ [(v, entrada_de cr)]) @ map (\<lambda>(v, cr). (v, entrada_de cr)) ps)"
  proof (rule Cons.IH)
    show "distinct (map fst ps)" using Cons.prems by simp
    show "fst ` set ps \<inter> fst ` set (resultados @ [(v, entrada_de cr)]) = {}"
      using Cons.prems p by (auto simp: image_iff)
    show "\<forall>(v, cr) \<in> set ps. \<not> rcerrado cr \<and> (\<forall>m \<in> set (take 1 (pendiente cr)). fst m = v)"
      using Cons.prems by simp
  qed
  then show ?case using uno p by simp
qed

lemma entrada_de_imprimible: "conteo (entrada_de cr) = - 1 \<or> dur (entrada_de cr) \<noteq> None"
  by (simp add: entrada_de_def marca_error_def split: list.splits prod.splits)

lemma informe_run:
  assumes "\<forall>v \<in> set vs. \<exists>i. map_of resultados v = Some i \<and> (conteo i = - 1 \<or> dur i \<noteq> None)"
  shows "\<exists>ls. informe B resultados vs = Inr ls \<and> length ls = length vs"
  using assms
proof (induction vs)
  case Nil
  then show ?case by simp
next
  case (Cons v vs)
  then obtain i where i: "map_of resultados v = Some i" "conteo i = - 1 \<or> dur i \<noteq> None"
    by auto
  then have "\<exists>l. linea_informe B v i = Inr l"
    by (cases "conteo i = - 1") (auto simp: linea_informe_def)
  then obtain l where l: "linea_informe B v i = Inr l" ..
  from Cons obtain ls where "informe B resultados vs = Inr ls" "length ls = length vs"
    by auto
  with i l show ?case by simp
qed

lemma recoger_total:
  assumes "distinct (map fst procesos)"
    and "\<forall>(v, cr) \<in> set procesos. \<not> rcerrado cr \<and> (\<forall>m \<in> set (take 1 (pendiente cr)). fst m = v)"
  shows "\<exists>resultados ls.
           recoger procesos [] = Inr resultados
           \<and> length resultados = length procesos
           \<and> map fst resultados = map fst procesos
           \<and> (\<forall>(v, cr) \<in> set procesos. map_of resultados v = Some (entrada_de cr))
           \<and> informe B resultados (sort (map fst resultados)) = Inr ls
           \<and> length ls = length procesos"
proof -
  let ?res = "map (\<lambda>(v, cr). (v, entrada_de cr)) procesos"
  have r: "recoger procesos [] = Inr ?res"
    using recoger_run [OF assms(1) _ assms(2), of "[]"] by simp
  have k: "map fst ?res = map fst procesos"
    by (simp add: comp_def case_prod_unfold)
  have d: "distinct (map fst ?res)" using assms(1) unfolding k .
  have m: "\<forall>(v, cr) \<in> set procesos. map_of ?res v = Some (entrada_de cr)"
  proof (clarify)
    fix v cr assume "(v, cr) \<in> set procesos"
    then have "(v, entrada_de cr) \<in> set ?res" by force
    then show "map_of ?res v = Some (entrada_de cr)"
      using d by (simp add: map_of_is_SomeI)
  qed
  have "\<forall>v \<in> set (sort (map fst ?res)). \<exists>i. map_of ?res v = Some i \<and> (conteo i = - 1 \<or> dur i \<noteq> None)"
  proof
    fix v assume "v \<in> set (sort (map fst ?res))"
    then have "v \<in> set (map fst procesos)" using k by simp
    then have "v \<in> fst ` set procesos" by simp
    then obtain cr where "(v, cr) \<in> set procesos" by auto
    with m have "map_of ?res v = Some (entrada_de cr)" by blast
    then show "\<exists>i. map_of ?res v = Some i \<and> (conteo i = - 1 \<or> dur i \<noteq> None)"
      using entrada_de_imprimible by blast
  qed
  from informe_run [OF this, of B] obtain ls
    where "informe B ?res (sort (map fst ?res)) = Inr ls" "length ls = length procesos"
    by auto
  with r k m show ?thesis by auto
qed


text \<open>
  C3. Let the parent hold, for K workers with distinct vowels, the receiving ends of
  their pipes, each open at the parent, and let what waits in each pipe come from the
  worker of that pipe. Then the collection loop returns, whatever the state of each
  pipe: a message waiting, nothing and the sender gone (end of stream), or nothing and
  the sender still there (the bounded wait elapses). The dictionary has exactly K
  entries, one for each vowel and in the order of the workers; the entry of a worker is
  the count, pid and duration it sent, or the marker with count -1 when nothing waits in
  its pipe; and the report has K lines. The workers that \<open>main_ej1\<close> starts satisfy
  the hypotheses (\<open>lanzar_bien\<close>), and the main program ends with five entries
  (\<open>main_ej1_completo\<close>).
\<close>

theorem recoger_completo:
  assumes "distinct (map fst procesos)"
    and "\<forall>(v, cr) \<in> set procesos. \<not> rcerrado cr \<and> (\<forall>m \<in> set (take 1 (pendiente cr)). fst m = v)"
  shows "\<exists>resultados ls.
           recoger procesos [] = Inr resultados
           \<and> length resultados = length procesos
           \<and> map fst resultados = map fst procesos
           \<and> (\<forall>(v, cr) \<in> set procesos. map_of resultados v = Some (entrada_de cr))
           \<and> informe B resultados (sort (map fst resultados)) = Inr ls
           \<and> length ls = length procesos"
  using assms by (rule recoger_total)

lemma lanzar_bien:
  "\<exists>cr. lanzar B Eh muere fs ruta v = (v, cr) \<and> \<not> rcerrado cr
        \<and> (\<forall>m \<in> set (take 1 (pendiente cr)). fst m = v)
        \<and> entrada_de cr =
            (if muere v then marca_error
             else \<lparr>conteo = (case leer_lineas fs ruta of Inr ls \<Rightarrow> contar_lineas v ls 0 | Inl e \<Rightarrow> - 1),
                   pid = Some (getpid (Eh v)), dur = Some (dur_de B (Eh v))\<rparr>)"
proof (cases "fs ruta")
  case None
  then show ?thesis
    by (simp add: lanzar_def extremo_padre_def contar_vocal_pipe_def leer_lineas_def send_def
        nuevo_send_def close_send_def entrada_de_def)
next
  case (Some texto)
  then show ?thesis
    by (simp add: lanzar_def extremo_padre_def contar_vocal_pipe_def leer_lineas_def send_def
        nuevo_send_def close_send_def entrada_de_def)
qed

lemma paso_main:
  assumes "recoger (map (lanzar B Eh muere
                      (if fs ''texto.txt'' = None then crear_fichero_ejemplo fs ''texto.txt'' 2000
                       else fs) ''texto.txt'') vocales) [] = Inr resultados"
    and "informe B resultados (sort (map fst resultados)) = Inr ls"
  shows "\<exists>salida. main_ej1 B Ep Eh muere fs = Inr (resultados, salida)"
  unfolding main_ej1_def Let_def using assms by (simp del: append.simps)

lemma main_ej1_completo:
  "\<exists>resultados salida.
     main_ej1 B Ep Eh muere fs = Inr (resultados, salida)
     \<and> map fst resultados = vocales \<and> length resultados = 5
     \<and> (\<forall>v \<in> set vocales. \<exists>i. map_of resultados v = Some i
           \<and> (muere v \<longrightarrow> i = marca_error)
           \<and> (\<not> muere v \<longrightarrow> pid i = Some (getpid (Eh v)) \<and> dur i = Some (dur_de B (Eh v))))"
proof -
  define fs1 where "fs1 = (if fs ''texto.txt'' = None then crear_fichero_ejemplo fs ''texto.txt'' 2000 else fs)"
  define ps where "ps = map (lanzar B Eh muere fs1 ''texto.txt'') vocales"
  have fsts: "map fst ps = vocales"
    unfolding ps_def by (simp add: comp_def lanzar_def)
  have dist: "distinct (map fst ps)"
    unfolding fsts by (simp add: vocales_def)
  have ok: "\<forall>(v, cr) \<in> set ps. \<not> rcerrado cr \<and> (\<forall>m \<in> set (take 1 (pendiente cr)). fst m = v)"
  proof (clarify)
    fix v cr assume "(v, cr) \<in> set ps"
    then obtain w where w: "(v, cr) = lanzar B Eh muere fs1 ''texto.txt'' w"
      unfolding ps_def by auto
    obtain cr' where c: "lanzar B Eh muere fs1 ''texto.txt'' w = (w, cr')" "\<not> rcerrado cr'"
      "\<forall>m \<in> set (take 1 (pendiente cr')). fst m = w"
      using lanzar_bien [of B Eh muere fs1 "''texto.txt''" w] by blast
    from w c(1) have "v = w" "cr = cr'" by simp_all
    with c show "\<not> rcerrado cr \<and> (\<forall>m \<in> set (take 1 (pendiente cr)). fst m = v)" by simp
  qed
  from recoger_total [OF dist ok, of B] obtain resultados ls where r:
    "recoger ps [] = Inr resultados" "length resultados = length ps"
    "map fst resultados = map fst ps"
    "\<forall>(v, cr) \<in> set ps. map_of resultados v = Some (entrada_de cr)"
    "informe B resultados (sort (map fst resultados)) = Inr ls"
    by blast
  have "length ps = 5" unfolding ps_def by (simp add: vocales_def)
  with r(2) have len: "length resultados = 5" by simp
  have ent: "\<forall>v \<in> set vocales. \<exists>i. map_of resultados v = Some i
           \<and> (muere v \<longrightarrow> i = marca_error)
           \<and> (\<not> muere v \<longrightarrow> pid i = Some (getpid (Eh v)) \<and> dur i = Some (dur_de B (Eh v)))"
  proof
    fix v assume v: "v \<in> set vocales"
    obtain cr where cr: "lanzar B Eh muere fs1 ''texto.txt'' v = (v, cr)"
      and e: "entrada_de cr =
            (if muere v then marca_error
             else \<lparr>conteo = (case leer_lineas fs1 ''texto.txt'' of Inr ls \<Rightarrow> contar_lineas v ls 0 | Inl e \<Rightarrow> - 1),
                   pid = Some (getpid (Eh v)), dur = Some (dur_de B (Eh v))\<rparr>)"
      using lanzar_bien [of B Eh muere fs1 "''texto.txt''" v] by blast
    have "lanzar B Eh muere fs1 ''texto.txt'' v \<in> set ps"
      unfolding ps_def using v by simp
    with cr have "(v, cr) \<in> set ps" by simp
    with r(4) have "map_of resultados v = Some (entrada_de cr)" by blast
    with e show "\<exists>i. map_of resultados v = Some i
           \<and> (muere v \<longrightarrow> i = marca_error)
           \<and> (\<not> muere v \<longrightarrow> pid i = Some (getpid (Eh v)) \<and> dur i = Some (dur_de B (Eh v)))"
      by simp
  qed
  have "\<exists>salida. main_ej1 B Ep Eh muere fs = Inr (resultados, salida)"
    using r(1) r(5) unfolding ps_def fs1_def by (rule paso_main)
  then obtain salida where m: "main_ej1 B Ep Eh muere fs = Inr (resultados, salida)" ..
  have k: "map fst resultados = vocales" using r(3) fsts by simp
  show ?thesis
    by (intro exI conjI) (rule m, rule k, rule len, rule ent)
qed

theorem recoger_completo_witness:
  "\<exists>resultados ls.
     recoger (map (lanzar builtins_ref (\<lambda>v. entorno_ref 2) (\<lambda>v. v = ''e'')
                     [''texto.txt'' \<mapsto> ''Hola mundo AEIOU''] ''texto.txt'') vocales) []
       = Inr resultados
     \<and> length resultados = 5
     \<and> map fst resultados = [''a'', ''e'', ''i'', ''o'', ''u'']
     \<and> map_of resultados ''e'' = Some marca_error
     \<and> map_of resultados ''o'' = Some \<lparr>conteo = 3, pid = Some 2, dur = Some (Fin 1)\<rparr>
     \<and> informe builtins_ref resultados (sort (map fst resultados)) = Inr ls
     \<and> length ls = 5"
proof -
  let ?vivo = "\<lambda>v n. (v, \<lparr>pendiente = [(v, n, 2, Fin 1)], emisor_cerrado = True, rcerrado = False\<rparr>)
                 :: string \<times> mensaje_vocal conn_recv"
  let ?muerto = "(''e'', \<lparr>pendiente = [], emisor_cerrado = True, rcerrado = False\<rparr>)
                 :: string \<times> mensaje_vocal conn_recv"
  let ?ps = "[?vivo ''a'' 2, ?muerto, ?vivo ''i'' 1, ?vivo ''o'' 3, ?vivo ''u'' 2]"
  have ps: "map (lanzar builtins_ref (\<lambda>v. entorno_ref 2) (\<lambda>v. v = ''e'')
                     [''texto.txt'' \<mapsto> ''Hola mundo AEIOU''] ''texto.txt'') vocales = ?ps"
    by code_simp
  have dist: "distinct (map fst ?ps)" by simp
  have ok: "\<forall>(v, cr) \<in> set ?ps. \<not> rcerrado cr \<and> (\<forall>m \<in> set (take 1 (pendiente cr)). fst m = v)"
    by simp
  show ?thesis
    unfolding ps using recoger_completo [OF dist ok, of builtins_ref]
    by (auto simp: entrada_de_def)
qed

section \<open>Properties of the search for the best mean\<close>

lemma fgt_irrefl: "\<not> fgt a a"
  by (cases a) simp_all

lemma fgt_trans: "fgt a b \<Longrightarrow> fgt b c \<Longrightarrow> fgt a c"
  by (cases a; cases b; cases c) simp_all

lemma fgt_asym: "fgt a b \<Longrightarrow> \<not> fgt b a"
  using fgt_trans fgt_irrefl by blast

lemma split_max1_Nil: "split_max1 [] = []"
  by (simp add: split_max1_def lstrip_def)

lemma paso_max_simp:
  "paso_max (mx, al) (x, n) =
     (if (case mx of None \<Rightarrow> True | Some m \<Rightarrow> fgt x m) then (Some x, Some n) else (mx, al))"
  by (cases mx) (simp_all add: paso_max_def)

lemma maximo_bucle_paso:
  "maximo_bucle B (l # ls) mx al =
     (case parse_linea B l of
        None \<Rightarrow> maximo_bucle B ls mx al
      | Some (x, n) \<Rightarrow>
          if (case mx of None \<Rightarrow> True | Some m \<Rightarrow> fgt x m)
          then maximo_bucle B ls (Some x) (Some n) else maximo_bucle B ls mx al)"
  by (simp add: parse_linea_def Let_def split_max1_Nil split: list.splits option.splits)

lemma maximo_bucle_fold:
  "maximo_bucle B ls mx al = foldl paso_max (mx, al) (bien_formadas B ls)"
proof (induction ls arbitrary: mx al)
  case Nil
  show ?case by (simp add: bien_formadas_def List.map_filter_simps)
next
  case (Cons l ls)
  show ?case
  proof (cases "parse_linea B l")
    case None
    then have bf: "bien_formadas B (l # ls) = bien_formadas B ls"
      by (simp add: bien_formadas_def List.map_filter_simps)
    show ?thesis
      unfolding maximo_bucle_paso bf using None Cons.IH by simp
  next
    case (Some par)
    obtain x n where par: "par = (x, n)" by (cases par)
    from Some par have bf: "bien_formadas B (l # ls) = (x, n) # bien_formadas B ls"
      by (simp add: bien_formadas_def List.map_filter_simps)
    show ?thesis
      unfolding maximo_bucle_paso bf using Some par Cons.IH
      by (simp add: paso_max_simp)
  qed
qed

lemma foldl_paso_max_Some:
  "\<exists>m' a'. foldl paso_max (Some m, Some a) ws = (Some m', Some a')
      \<and> (m', a') \<in> insert (m, a) (set ws)
      \<and> (m' = m \<or> fgt m' m)
      \<and> (\<forall>(x, n) \<in> set ws. \<not> fgt x m')"
proof (induction ws arbitrary: m a)
  case Nil
  show ?case by simp
next
  case (Cons par ws)
  obtain x n where par: "par = (x, n)" by (cases par)
  show ?case
  proof (cases "fgt x m")
    case True
    from Cons.IH [of x n] obtain m' a' where h:
      "foldl paso_max (Some x, Some n) ws = (Some m', Some a')"
      "(m', a') \<in> insert (x, n) (set ws)" "m' = x \<or> fgt m' x"
      "\<forall>(y, k) \<in> set ws. \<not> fgt y m'"
      by blast
    have 1: "foldl paso_max (Some m, Some a) (par # ws) = (Some m', Some a')"
      using True par h(1) by (simp add: paso_max_def)
    have 2: "(m', a') \<in> insert (m, a) (set (par # ws))" using h(2) par by auto
    have 3: "m' = m \<or> fgt m' m" using h(3) True fgt_trans by blast
    have "\<not> fgt x m'" using h(3) fgt_irrefl fgt_asym by blast
    then have 4: "\<forall>(y, k) \<in> set (par # ws). \<not> fgt y m'" using h(4) par by simp
    from 1 2 3 4 show ?thesis by blast
  next
    case False
    from Cons.IH [of m a] obtain m' a' where h:
      "foldl paso_max (Some m, Some a) ws = (Some m', Some a')"
      "(m', a') \<in> insert (m, a) (set ws)" "m' = m \<or> fgt m' m"
      "\<forall>(y, k) \<in> set ws. \<not> fgt y m'"
      by blast
    have 1: "foldl paso_max (Some m, Some a) (par # ws) = (Some m', Some a')"
      using False par h(1) by (simp add: paso_max_def)
    have 2: "(m', a') \<in> insert (m, a) (set (par # ws))" using h(2) by auto
    have "\<not> fgt x m'" using h(3) False fgt_trans by blast
    then have 4: "\<forall>(y, k) \<in> set (par # ws). \<not> fgt y m'" using h(4) par by simp
    from 1 2 h(3) 4 show ?thesis by blast
  qed
qed

lemma foldl_paso_max_None:
  assumes "ws \<noteq> []"
  shows "\<exists>(m, a) \<in> set ws. foldl paso_max (None, None) ws = (Some m, Some a)
           \<and> (\<forall>(x, n) \<in> set ws. \<not> fgt x m)"
proof -
  obtain x n ws' where ws: "ws = (x, n) # ws'" using assms by (cases ws) auto
  from foldl_paso_max_Some [of x n ws'] obtain m' a' where h:
    "foldl paso_max (Some x, Some n) ws' = (Some m', Some a')"
    "(m', a') \<in> insert (x, n) (set ws')" "m' = x \<or> fgt m' x"
    "\<forall>(y, k) \<in> set ws'. \<not> fgt y m'"
    by blast
  have 1: "foldl paso_max (None, None) ws = (Some m', Some a')"
    using ws h(1) by (simp add: paso_max_def)
  have 2: "(m', a') \<in> set ws" using ws h(2) by simp
  have "\<not> fgt x m'" using h(3) fgt_irrefl fgt_asym by blast
  then have 3: "\<forall>(y, k) \<in> set ws. \<not> fgt y m'" using ws h(4) by simp
  from 1 2 3 show ?thesis by blast
qed

text \<open>
  C8, as amended. If the file of means is absent, \<open>proceso_maximo_medias\<close> prints
  the error line and returns. If it exists and has no well-formed line, it prints that
  no means were found. If it has well-formed lines and the number of none of them is
  NaN, it prints the number and the name of one of them, and every well-formed line has
  a number less than or equal to that one. Blank lines, lines without two fields and
  lines whose first field is not a float are not well-formed and do not count.
\<close>

theorem maximo_correcto:
  "(fs ruta = None \<longrightarrow> proceso_maximo_medias B E fs ruta = Inr [linea_no_encontrado E ruta])
   \<and> (fs ruta = Some texto \<and> bien_formadas B (lineas (traducir_nl texto)) = [] \<longrightarrow>
        proceso_maximo_medias B E fs ruta = Inr [linea_sin_medias B E ruta])
   \<and> (fs ruta = Some texto \<and> bien_formadas B (lineas (traducir_nl texto)) \<noteq> []
        \<and> (\<forall>(x, n) \<in> set (bien_formadas B (lineas (traducir_nl texto))). x \<noteq> NaN) \<longrightarrow>
        (\<exists>(m, a) \<in> set (bien_formadas B (lineas (traducir_nl texto))).
            proceso_maximo_medias B E fs ruta = Inr [linea_maximo B E m (Some a)]
            \<and> (\<forall>(x, n) \<in> set (bien_formadas B (lineas (traducir_nl texto))). fle x m)))"
proof (intro conjI impI)
  assume "fs ruta = None"
  then show "proceso_maximo_medias B E fs ruta = Inr [linea_no_encontrado E ruta]"
    by (simp add: proceso_maximo_medias_def leer_lineas_def)
next
  assume "fs ruta = Some texto \<and> bien_formadas B (lineas (traducir_nl texto)) = []"
  then show "proceso_maximo_medias B E fs ruta = Inr [linea_sin_medias B E ruta]"
    by (simp add: proceso_maximo_medias_def leer_lineas_def maximo_bucle_fold)
next
  let ?ws = "bien_formadas B (lineas (traducir_nl texto))"
  assume a: "fs ruta = Some texto \<and> ?ws \<noteq> [] \<and> (\<forall>(x, n) \<in> set ?ws. x \<noteq> NaN)"
  then obtain m a where h: "(m, a) \<in> set ?ws"
    "foldl paso_max (None, None) ?ws = (Some m, Some a)" "\<forall>(x, n) \<in> set ?ws. \<not> fgt x m"
    using foldl_paso_max_None [of ?ws] by blast
  have p: "proceso_maximo_medias B E fs ruta = Inr [linea_maximo B E m (Some a)]"
    using a h(2) by (simp add: proceso_maximo_medias_def leer_lineas_def maximo_bucle_fold)
  have "m \<noteq> NaN" using a h(1) by blast
  then have "\<forall>(x, n) \<in> set ?ws. fle x m"
    using a h(3) by (auto simp: fle_def)
  with h(1) p show "\<exists>(m, a) \<in> set ?ws.
            proceso_maximo_medias B E fs ruta = Inr [linea_maximo B E m (Some a)]
            \<and> (\<forall>(x, n) \<in> set ?ws. fle x m)"
    by blast
qed


theorem maximo_correcto_witness:
  "proceso_maximo_medias builtins_ref (entorno_ref 3)
      [''medias.txt'' \<mapsto> ''7.50 Bob\<newline>\<newline>mala\<newline>9.00 Alice Smith\<newline>x Eve\<newline>''] ''medias.txt''
     = Inr [linea_maximo builtins_ref (entorno_ref 3) (Fin 9) (Some ''Alice Smith'')]
   \<and> proceso_maximo_medias builtins_ref (entorno_ref 3) Map.empty ''medias.txt''
     = Inr [linea_no_encontrado (entorno_ref 3) ''medias.txt'']
   \<and> proceso_maximo_medias builtins_ref (entorno_ref 3) [''medias.txt'' \<mapsto> ''mala\<newline>''] ''medias.txt''
     = Inr [linea_sin_medias builtins_ref (entorno_ref 3) ''medias.txt'']"
proof -
  let ?t = "''7.50 Bob\<newline>\<newline>mala\<newline>9.00 Alice Smith\<newline>x Eve\<newline>''"
  have b: "bien_formadas builtins_ref (lineas (traducir_nl ?t))
             = [(Fin 7.5, ''Bob''), (Fin 9, ''Alice Smith'')]"
    by code_simp
  have c: "bien_formadas builtins_ref (lineas (traducir_nl ''mala\<newline>'')) = []"
    by code_simp
  have 1: "proceso_maximo_medias builtins_ref (entorno_ref 3) [''medias.txt'' \<mapsto> ?t] ''medias.txt''
     = Inr [linea_maximo builtins_ref (entorno_ref 3) (Fin 9) (Some ''Alice Smith'')]"
    using maximo_correcto [of "[''medias.txt'' \<mapsto> ?t]" "''medias.txt''" builtins_ref "entorno_ref 3" ?t]
    unfolding b by (auto simp: fle_def)
  have 2: "proceso_maximo_medias builtins_ref (entorno_ref 3) Map.empty ''medias.txt''
     = Inr [linea_no_encontrado (entorno_ref 3) ''medias.txt'']"
    using maximo_correcto [of Map.empty "''medias.txt''" builtins_ref "entorno_ref 3" "[]"]
    by simp
  have 3: "proceso_maximo_medias builtins_ref (entorno_ref 3) [''medias.txt'' \<mapsto> ''mala\<newline>''] ''medias.txt''
     = Inr [linea_sin_medias builtins_ref (entorno_ref 3) ''medias.txt'']"
    using maximo_correcto [of "[''medias.txt'' \<mapsto> ''mala\<newline>'']" "''medias.txt''" builtins_ref
        "entorno_ref 3" "''mala\<newline>''"]
    unfolding c by simp
  from 1 2 3 show ?thesis by simp
qed

text \<open>
  The claim C8 as stated fails when a well-formed line has the number NaN, which
  \<open>float\<close> accepts: every comparison with NaN is false, so a NaN on the first
  well-formed line is never replaced. Here the file has the lines \<open>nan Bob\<close> and
  \<open>5.00 Alice\<close>; the process reports NaN and Bob, and 5.0 is not less than or
  equal to NaN.
\<close>

theorem maximo_con_nan:
  "proceso_maximo_medias builtins_ref (entorno_ref 3)
      [''medias.txt'' \<mapsto> ''nan Bob\<newline>5.00 Alice\<newline>''] ''medias.txt''
     = Inr [linea_maximo builtins_ref (entorno_ref 3) NaN (Some ''Bob'')]
   \<and> bien_formadas builtins_ref (lineas (traducir_nl ''nan Bob\<newline>5.00 Alice\<newline>''))
     = [(NaN, ''Bob''), (Fin 5, ''Alice'')]
   \<and> \<not> fle (Fin 5) NaN"
proof -
  have m: "maximo_bucle builtins_ref (lineas (traducir_nl ''nan Bob\<newline>5.00 Alice\<newline>'')) None None
             = (Some NaN, Some ''Bob'')"
    by code_simp
  have b: "bien_formadas builtins_ref (lineas (traducir_nl ''nan Bob\<newline>5.00 Alice\<newline>''))
             = [(NaN, ''Bob''), (Fin 5, ''Alice'')]"
    by code_simp
  have p: "proceso_maximo_medias builtins_ref (entorno_ref 3)
      [''medias.txt'' \<mapsto> ''nan Bob\<newline>5.00 Alice\<newline>''] ''medias.txt''
     = Inr [linea_maximo builtins_ref (entorno_ref 3) NaN (Some ''Bob'')]"
    unfolding proceso_maximo_medias_def leer_lineas_def by (simp only: m fun_upd_same option.case sum.case prod.case)
  show ?thesis using p b by (simp add: fle_def)
qed

section \<open>Properties of the pool of EJ3B\<close>

lemma pool_paso_inv:
  assumes inv: "pool_inv P f tareas quien st"
    and ok: "\<And>c a w. P w \<Longrightarrow> \<exists>r w'. f c a w = Inr (r, w') \<and> P w'"
  shows "pool_inv P f tareas quien (pool_paso f tareas quien i st)
         \<and> set (fst (snd (pool_paso f tareas quien i st)))
             = set (fst (snd st)) \<union> ({i} \<inter> {0..<length tareas})"
proof -
  obtain huecos hechas fallo w where st: "st = (huecos, hechas, fallo, w)"
    by (cases st) auto
  from inv have h: "length huecos = length tareas" "distinct hechas"
    "set hechas \<subseteq> {0..<length tareas}" "fallo = None" "P w"
    and llenos: "\<forall>j \<in> set hechas.
              \<exists>r wi wi'. huecos ! j = Some r \<and> P wi \<and> f (quien j) (tareas ! j) wi = Inr (r, wi')"
    and vacios: "\<forall>j < length tareas. j \<notin> set hechas \<longrightarrow> huecos ! j = None"
    unfolding pool_inv_def st prod.case by blast+
  show ?thesis
  proof (cases "i < length tareas \<and> i \<notin> set hechas")
    case False
    then have "pool_paso f tareas quien i st = st"
      by (auto simp: pool_paso_def st)
    with inv False st show ?thesis by auto
  next
    case True
    from ok [OF h(5), of "quien i" "tareas ! i"] obtain r w'
      where r: "f (quien i) (tareas ! i) w = Inr (r, w')" "P w'" by blast
    have paso: "pool_paso f tareas quien i st = (huecos[i := Some r], i # hechas, fallo, w')"
      using True r(1) by (simp add: pool_paso_def st)
    have 1: "\<forall>j \<in> set (i # hechas).
              \<exists>r' wi wi'. huecos[i := Some r] ! j = Some r' \<and> P wi
                  \<and> f (quien j) (tareas ! j) wi = Inr (r', wi')"
    proof
      fix j assume j: "j \<in> set (i # hechas)"
      show "\<exists>r' wi wi'. huecos[i := Some r] ! j = Some r' \<and> P wi
                  \<and> f (quien j) (tareas ! j) wi = Inr (r', wi')"
      proof (cases "j = i")
        case True
        then show ?thesis using r(1) h(1) h(5) \<open>i < length tareas \<and> i \<notin> set hechas\<close> by auto
      next
        case False
        with j have "j \<in> set hechas" by simp
        with llenos False show ?thesis by (simp add: nth_list_update)
      qed
    qed
    have 2: "\<forall>j < length tareas. j \<notin> set (i # hechas) \<longrightarrow> huecos[i := Some r] ! j = None"
      using vacios by (simp add: nth_list_update)
    have "pool_inv P f tareas quien (huecos[i := Some r], i # hechas, fallo, w')"
      unfolding pool_inv_def prod.case using h True r(2) 1 2 by simp
    then show ?thesis using paso True st by auto
  qed
qed

lemma pool_foldl_inv:
  assumes ok: "\<And>c a w. P w \<Longrightarrow> \<exists>r w'. f c a w = Inr (r, w') \<and> P w'"
  shows "pool_inv P f tareas quien st \<Longrightarrow>
         pool_inv P f tareas quien (foldl (\<lambda>st i. pool_paso f tareas quien i st) st orden)
         \<and> set (fst (snd (foldl (\<lambda>st i. pool_paso f tareas quien i st) st orden)))
             = set (fst (snd st)) \<union> (set orden \<inter> {0..<length tareas})"
proof (induction orden arbitrary: st)
  case Nil
  then show ?case by simp
next
  case (Cons i orden)
  from pool_paso_inv [OF Cons.prems ok, of i]
  have 1: "pool_inv P f tareas quien (pool_paso f tareas quien i st)"
    and 2: "set (fst (snd (pool_paso f tareas quien i st)))
             = set (fst (snd st)) \<union> ({i} \<inter> {0..<length tareas})"
    by blast+
  from Cons.IH [OF 1] 2 show ?case by auto
qed

lemma map_filter_llenos:
  "\<forall>i < length hs. hs ! i \<noteq> None \<Longrightarrow>
     length (List.map_filter id hs) = length hs
     \<and> (\<forall>i < length hs. hs ! i = Some (List.map_filter id hs ! i))"
proof (induction hs)
  case Nil
  show ?case by (simp add: List.map_filter_simps)
next
  case (Cons h hs)
  from Cons.prems have "h \<noteq> None" by force
  then obtain x where x: "h = Some x" by blast
  from Cons.prems have "\<forall>i < length hs. hs ! i \<noteq> None" by force
  from Cons.IH [OF this] have ih: "length (List.map_filter id hs) = length hs"
    "\<forall>i < length hs. hs ! i = Some (List.map_filter id hs ! i)" by blast+
  show ?case
  proof (intro conjI allI impI)
    show "length (List.map_filter id (h # hs)) = length (h # hs)"
      using x ih(1) by (simp add: List.map_filter_simps)
    fix i assume "i < length (h # hs)"
    then show "(h # hs) ! i = Some (List.map_filter id (h # hs) ! i)"
      using x ih(2) by (cases i) (simp_all add: List.map_filter_simps)
  qed
qed

lemma pool_map_orden:
  assumes p: "P w"
    and ok: "\<And>c a w. P w \<Longrightarrow> \<exists>r w'. f c a w = Inr (r, w') \<and> P w'"
    and cubre: "{0..<length tareas} \<subseteq> set orden"
  shows "\<exists>rs w'. pool_map f tareas quien orden w = Inr (rs, w') \<and> P w'
           \<and> length rs = length tareas
           \<and> (\<forall>i < length tareas. \<exists>wi wi'. P wi \<and> f (quien i) (tareas ! i) wi = Inr (rs ! i, wi'))"
proof -
  let ?st0 = "(replicate (length tareas) None, [], None, w)
                :: 'd option list \<times> nat list \<times> error option \<times> 'a"
  have "pool_inv P f tareas quien ?st0"
    using p by (simp add: pool_inv_def)
  from pool_foldl_inv [where P = P, OF ok this, of orden]
  have inv: "pool_inv P f tareas quien (foldl (\<lambda>st i. pool_paso f tareas quien i st) ?st0 orden)"
    and hechas: "set (fst (snd (foldl (\<lambda>st i. pool_paso f tareas quien i st) ?st0 orden)))
             = set orden \<inter> {0..<length tareas}"
    by simp_all
  obtain huecos hechas fallo w' where fin:
    "foldl (\<lambda>st i. pool_paso f tareas quien i st) ?st0 orden = (huecos, hechas, fallo, w')"
    by (cases "foldl (\<lambda>st i. pool_paso f tareas quien i st) ?st0 orden") auto
  from inv have h: "length huecos = length tareas" "distinct hechas" "fallo = None" "P w'"
    and sl: "\<forall>j \<in> set hechas.
              \<exists>r wi wi'. huecos ! j = Some r \<and> P wi \<and> f (quien j) (tareas ! j) wi = Inr (r, wi')"
    unfolding pool_inv_def fin prod.case by blast+
  from hechas fin cubre have todas: "set hechas = {0..<length tareas}" by auto
  with h(2) have len: "length hechas = length tareas"
    using distinct_card [of hechas] by simp
  have llenos: "\<forall>i < length huecos. huecos ! i \<noteq> None"
  proof (intro allI impI)
    fix i assume "i < length huecos"
    then have "i \<in> set hechas" using todas h(1) by simp
    with sl show "huecos ! i \<noteq> None" by force
  qed
  from map_filter_llenos [OF this]
  have rs: "length (List.map_filter id huecos) = length tareas"
    "\<forall>i < length tareas. huecos ! i = Some (List.map_filter id huecos ! i)"
    using h(1) by simp_all
  have pm: "pool_map f tareas quien orden w = Inr (List.map_filter id huecos, w')"
    using fin len h(3) by (simp add: pool_map_def)
  have "\<forall>i < length tareas. \<exists>wi wi'. P wi
          \<and> f (quien i) (tareas ! i) wi = Inr (List.map_filter id huecos ! i, wi')"
  proof (intro allI impI)
    fix i assume i: "i < length tareas"
    then have "i \<in> set hechas" using todas by simp
    with sl obtain r wi wi' where "huecos ! i = Some r" "P wi"
      "f (quien i) (tareas ! i) wi = Inr (r, wi')" by blast
    with rs(2) i show "\<exists>wi wi'. P wi
          \<and> f (quien i) (tareas ! i) wi = Inr (List.map_filter id huecos ! i, wi')" by auto
  qed
  with pm h(4) rs(1) show ?thesis by blast
qed


lemma calcular_media_pool_media:
  "\<exists>d. calcular_media_pool B E fs (ruta, nombre) = Inr (media_de B fs ruta, nombre, d, getpid E)"
proof (cases "fs ruta")
  case None
  then show ?thesis by (simp add: calcular_media_pool_def leer_lineas_def media_de_def)
next
  case (Some texto)
  then show ?thesis
    by (simp add: calcular_media_pool_def leer_lineas_def media_de_def media_notas_def truediv_def
        Let_def)
qed

lemma tareas_med_nth:
  "length tareas_med = N_ALUMNOS"
  "i < N_ALUMNOS \<Longrightarrow>
     tareas_med ! i = (''Alumno'' @ show_nat (i + 1) @ ''.txt'', ''Alumno'' @ show_nat (i + 1))"
  by (simp_all add: tareas_med_def add.commute del: upt_Suc)

lemma tareas_gen_nth:
  "length tareas_gen = N_ALUMNOS"
  "i < N_ALUMNOS \<Longrightarrow> tareas_gen ! i = (''Alumno'' @ show_nat (i + 1) @ ''.txt'', N_NOTAS)"
  by (simp_all add: tareas_gen_def add.commute del: upt_Suc)

lemma texto_medias_lineas:
  assumes "\<forall>i < length rs. fst (rs ! i) = m i \<and> fst (snd (rs ! i)) = n i"
  shows "texto_medias B rs = concat (map (\<lambda>i. linea_media B (m i) (n i)) [0..<length rs])"
proof -
  have "map (\<lambda>(media, nombre, dur, pid). linea_media B media nombre) rs
          = map (\<lambda>i. linea_media B (m i) (n i)) [0..<length rs]"
    using assms by (intro nth_equalityI) (auto simp: case_prod_unfold)
  then show ?thesis by (simp add: texto_medias_def)
qed

lemma main_ej3b_pasos:
  assumes "pool_map (\<lambda>(E, u) t w. generar_notas_pool B E u t w) tareas_gen
             (\<lambda>i. (Eg i, uniforme i)) orden_g (fs(''medias.txt'' := None)) = Inr (rg, fs1)"
    and "pool_map (\<lambda>E t w. map_sum id (\<lambda>r. (r, w)) (calcular_media_pool B E w t))
             tareas_med Em orden_m fs1 = Inr (rm, fs2)"
  shows "\<exists>salida. main_ej3b B reloj Eg uniforme orden_g Em orden_m Emax fs
           = Inr (salida, escribir fs2 ''medias.txt'' (texto_medias B rm))"
  unfolding main_ej3b_def Let_def using assms by (simp del: append.simps)

text \<open>
  C2. Let every task of each batch complete, in any order and on any worker. Then the
  generation batch returns ten results, and result \<open>i\<close> carries the path of task
  \<open>i\<close>; the averaging batch returns ten results, result \<open>i\<close> is what
  \<open>calcular_media_pool\<close> computes from task \<open>i\<close>, with the name of student
  \<open>i + 1\<close> and the mean of that student's file; and the main program writes a file
  of means that is the ten lines in the order of the students, line \<open>i\<close> holding the
  mean and the name of student \<open>i + 1\<close>. The order of completion and the workers
  appear nowhere in these results.
\<close>

theorem pool_orden_medias:
  assumes "{0..<N_ALUMNOS} \<subseteq> set orden_g" and "{0..<N_ALUMNOS} \<subseteq> set orden_m"
  shows "\<exists>resultados_gen fs1 resultados_med salida fs3.
     pool_map (\<lambda>(E, u) t w. generar_notas_pool B E u t w) tareas_gen
         (\<lambda>i. (Eg i, uniforme i)) orden_g (fs(''medias.txt'' := None))
       = Inr (resultados_gen, fs1)
     \<and> length resultados_gen = N_ALUMNOS
     \<and> (\<forall>i < N_ALUMNOS. resultados_gen ! i
            = (''Alumno'' @ show_nat (i + 1) @ ''.txt'', dur_de B (Eg i), getpid (Eg i)))
     \<and> pool_map (\<lambda>E t w. map_sum id (\<lambda>r. (r, w)) (calcular_media_pool B E w t))
         tareas_med Em orden_m fs1
       = Inr (resultados_med, fs1)
     \<and> length resultados_med = N_ALUMNOS
     \<and> (\<forall>i < N_ALUMNOS.
            calcular_media_pool B (Em i) fs1 (tareas_med ! i) = Inr (resultados_med ! i)
            \<and> fst (resultados_med ! i) = media_de B fs1 (''Alumno'' @ show_nat (i + 1) @ ''.txt'')
            \<and> fst (snd (resultados_med ! i)) = ''Alumno'' @ show_nat (i + 1))
     \<and> main_ej3b B reloj Eg uniforme orden_g Em orden_m Emax fs = Inr (salida, fs3)
     \<and> fs3 ''medias.txt''
         = Some (concat (map (\<lambda>i. fmt_2f B (media_de B fs1 (''Alumno'' @ show_nat (i + 1) @ ''.txt''))
                                   @ '' Alumno'' @ show_nat (i + 1) @ [CHR 0x0A])
                             [0..<N_ALUMNOS]))"
proof -
  let ?fg = "\<lambda>(E, u) t w. generar_notas_pool B E u t w"
  let ?fm = "\<lambda>E t w. map_sum id (\<lambda>r. (r, w)) (calcular_media_pool B E w t)"
  have okg: "\<And>c a w. True \<Longrightarrow> \<exists>r w'. ?fg c a w = Inr (r, w') \<and> True"
    by (auto simp: generar_notas_pool_def split: prod.splits)
  have cg: "{0..<length tareas_gen} \<subseteq> set orden_g"
    using assms(1) by (simp add: tareas_gen_nth)
  from pool_map_orden [where P = "\<lambda>w. True" and f = ?fg and quien = "\<lambda>i. (Eg i, uniforme i)",
      OF TrueI okg cg, of "fs(''medias.txt'' := None)"]
  obtain rg fs1 where g: "pool_map ?fg tareas_gen (\<lambda>i. (Eg i, uniforme i)) orden_g
        (fs(''medias.txt'' := None)) = Inr (rg, fs1)"
    and lg: "length rg = length tareas_gen"
    and ig: "\<forall>i < length tareas_gen. \<exists>wi wi'.
               ?fg (Eg i, uniforme i) (tareas_gen ! i) wi = Inr (rg ! i, wi')"
    by blast
  have rg: "\<forall>i < N_ALUMNOS. rg ! i
            = (''Alumno'' @ show_nat (i + 1) @ ''.txt'', dur_de B (Eg i), getpid (Eg i))"
  proof (intro allI impI)
    fix i assume i: "i < N_ALUMNOS"
    with ig obtain wi wi' where
      "generar_notas_pool B (Eg i) (uniforme i) (tareas_gen ! i) wi = Inr (rg ! i, wi')"
      by (auto simp: tareas_gen_nth)
    then show "rg ! i = (''Alumno'' @ show_nat (i + 1) @ ''.txt'', dur_de B (Eg i), getpid (Eg i))"
      using i by (simp add: tareas_gen_nth generar_notas_pool_def)
  qed
  have okm: "\<And>c a w. w = fs1 \<Longrightarrow> \<exists>r w'. ?fm c a w = Inr (r, w') \<and> w' = fs1"
  proof -
    fix c :: entorno and a :: "string \<times> string" and w :: ficheros
    assume w: "w = fs1"
    obtain ruta nombre where a: "a = (ruta, nombre)" by (cases a)
    from calcular_media_pool_media [of B c w ruta nombre] a w
    show "\<exists>r w'. ?fm c a w = Inr (r, w') \<and> w' = fs1" by auto
  qed
  have cm: "{0..<length tareas_med} \<subseteq> set orden_m"
    using assms(2) by (simp add: tareas_med_nth)
  from pool_map_orden [where P = "\<lambda>w. w = fs1" and f = ?fm and quien = Em, OF refl okm cm]
  obtain rm where m: "pool_map ?fm tareas_med Em orden_m fs1 = Inr (rm, fs1)"
    and lm: "length rm = length tareas_med"
    and im: "\<forall>i < length tareas_med. \<exists>wi'. ?fm (Em i) (tareas_med ! i) fs1 = Inr (rm ! i, wi')"
    by blast
  have rm: "\<forall>i < N_ALUMNOS.
            calcular_media_pool B (Em i) fs1 (tareas_med ! i) = Inr (rm ! i)
            \<and> fst (rm ! i) = media_de B fs1 (''Alumno'' @ show_nat (i + 1) @ ''.txt'')
            \<and> fst (snd (rm ! i)) = ''Alumno'' @ show_nat (i + 1)"
  proof (intro allI impI)
    fix i assume i: "i < N_ALUMNOS"
    let ?ruta = "''Alumno'' @ show_nat (i + 1) @ ''.txt''" and ?nombre = "''Alumno'' @ show_nat (i + 1)"
    have t: "tareas_med ! i = (?ruta, ?nombre)" using i by (rule tareas_med_nth)
    obtain d where c: "calcular_media_pool B (Em i) fs1 (?ruta, ?nombre)
                         = Inr (media_de B fs1 ?ruta, ?nombre, d, getpid (Em i))"
      using calcular_media_pool_media by blast
    from im i obtain wi' where "?fm (Em i) (tareas_med ! i) fs1 = Inr (rm ! i, wi')"
      by (auto simp: tareas_med_nth)
    then have "calcular_media_pool B (Em i) fs1 (tareas_med ! i) = Inr (rm ! i)"
      by (cases "calcular_media_pool B (Em i) fs1 (tareas_med ! i)") simp_all
    with c t have "rm ! i = (media_de B fs1 ?ruta, ?nombre, d, getpid (Em i))"
      by simp
    with c t show "calcular_media_pool B (Em i) fs1 (tareas_med ! i) = Inr (rm ! i)
            \<and> fst (rm ! i) = media_de B fs1 ?ruta \<and> fst (snd (rm ! i)) = ?nombre"
      by simp
  qed
  from main_ej3b_pasos [OF g m] obtain salida where
    mn: "main_ej3b B reloj Eg uniforme orden_g Em orden_m Emax fs
           = Inr (salida, escribir fs1 ''medias.txt'' (texto_medias B rm))"
    by blast
  have lrm: "length rm = N_ALUMNOS" using lm by (simp add: tareas_med_nth)
  have "texto_medias B rm
          = concat (map (\<lambda>i. linea_media B (media_de B fs1 (''Alumno'' @ show_nat (i + 1) @ ''.txt''))
                                (''Alumno'' @ show_nat (i + 1))) [0..<length rm])"
    by (rule texto_medias_lineas) (use rm lrm in simp)
  then have tx: "escribir fs1 ''medias.txt'' (texto_medias B rm) ''medias.txt''
         = Some (concat (map (\<lambda>i. fmt_2f B (media_de B fs1 (''Alumno'' @ show_nat (i + 1) @ ''.txt''))
                                   @ '' Alumno'' @ show_nat (i + 1) @ [CHR 0x0A])
                             [0..<N_ALUMNOS]))"
    using lrm by (simp add: escribir_def linea_media_def)
  have lrg: "length rg = N_ALUMNOS" using lg by (simp add: tareas_gen_nth)
  show ?thesis
    by (intro exI conjI) (rule g, rule lrg, rule rg, rule m, rule lrm, rule rm, rule mn, rule tx)
qed


theorem pool_orden_medias_witness:
  "\<exists>salida fs3 fs1.
     main_ej3b builtins_ref (\<lambda>k. Fin (real k)) (\<lambda>i. entorno_ref (100 + i))
         (\<lambda>i k. Fin (real (i + k))) [9, 8, 7, 6, 5, 4, 3, 2, 1, 0]
         (\<lambda>i. entorno_ref (200 + i)) [3, 1, 4, 0, 5, 9, 2, 6, 8, 7] (entorno_ref 7) Map.empty
       = Inr (salida, fs3)
     \<and> fs3 ''medias.txt''
         = Some (concat (map (\<lambda>i. fmt_2f builtins_ref
                                     (media_de builtins_ref fs1 (''Alumno'' @ show_nat (i + 1) @ ''.txt''))
                                   @ '' Alumno'' @ show_nat (i + 1) @ [CHR 0x0A])
                             [0..<N_ALUMNOS]))"
proof -
  have g: "{0..<N_ALUMNOS} \<subseteq> set [9, 8, 7, 6, 5, 4, 3, 2, 1, 0]"
    by code_simp
  have m: "{0..<N_ALUMNOS} \<subseteq> set [3, 1, 4, 0, 5, 9, 2, 6, 8, 7]"
    by code_simp
  from pool_orden_medias [OF g m, of builtins_ref "\<lambda>i. entorno_ref (100 + i)"
      "\<lambda>i k. Fin (real (i + k))" Map.empty "\<lambda>i. entorno_ref (200 + i)"
      "\<lambda>k. Fin (real k)" "entorno_ref 7"]
  show ?thesis by blast
qed

section \<open>Properties of the locked append of EJ3A\<close>

lemma contenido_apendar:
  "contenido (apendar fs ruta t) ruta = contenido fs ruta @ t"
  "r \<noteq> ruta \<Longrightarrow> apendar fs ruta t r = fs r"
  by (simp_all add: contenido_def apendar_def split: option.splits)

lemma linea_de_leer:
  assumes "leer_lineas fs0 (fst t) = Inr ls" and "media_notas B (leer_notas B ls []) = Inr m"
  shows "linea_de B fs0 t = linea_media B m (snd t)"
  using assms by (simp add: linea_de_def)

lemma inv_fases_cambio:
  assumes inv: "inv_fases B tareas rm fs0 s"
    and i: "i < length tareas"
    and f': "fases s' = (fases s)[i := X]"
    and a': "\<forall>r. r \<noteq> rm \<longrightarrow> archivos s' r = archivos s r"
    and c': "\<forall>j. j \<noteq> i \<longrightarrow> (candado s' = Some j) = (candado s = Some j)"
    and x1: "X \<noteq> SinFichero"
    and x2: "\<forall>l. X = Listo l \<or> X = ConCandado l \<longrightarrow> l = linea_de B fs0 (tareas ! i)"
    and x3: "en_candado X = (candado s' = Some i)"
  shows "inv_fases B tareas rm fs0 s'"
proof -
  from inv have len: "length (fases s) = length tareas"
    and arch: "\<forall>r. r \<noteq> rm \<longrightarrow> archivos s r = fs0 r"
    and sinf: "\<forall>j < length tareas. fases s ! j \<noteq> SinFichero"
    and lin: "\<forall>j < length tareas. \<forall>l. fases s ! j = Listo l \<or> fases s ! j = ConCandado l
             \<longrightarrow> l = linea_de B fs0 (tareas ! j)"
    and e1: "\<forall>j < length tareas. en_candado (fases s ! j) \<longleftrightarrow> candado s = Some j"
    and e2: "\<forall>j. candado s = Some j \<longrightarrow> j < length tareas"
    unfolding inv_fases_def by blast+
  have nth: "\<And>j. j < length tareas \<Longrightarrow> fases s' ! j = (if j = i then X else fases s ! j)"
    using f' len by (simp add: nth_list_update)
  show ?thesis
    unfolding inv_fases_def
  proof (intro conjI allI impI)
    show "length (fases s') = length tareas" using f' len by simp
  next
    fix r assume "r \<noteq> rm"
    then show "archivos s' r = fs0 r" using a' arch by simp
  next
    fix j assume "j < length tareas"
    then show "fases s' ! j \<noteq> SinFichero" using nth sinf x1 by simp
  next
    fix j l assume j: "j < length tareas"
      and "fases s' ! j = Listo l \<or> fases s' ! j = ConCandado l"
    then show "l = linea_de B fs0 (tareas ! j)"
      using nth [OF j] lin x2 by (cases "j = i") auto
  next
    fix j assume j: "j < length tareas"
    show "en_candado (fases s' ! j) \<longleftrightarrow> candado s' = Some j"
    proof (cases "j = i")
      case True
      then show ?thesis using nth [OF j] x3 by simp
    next
      case False
      then show ?thesis using nth [OF j] e1 j c' by simp
    qed
  next
    fix j assume "candado s' = Some j"
    then show "j < length tareas" using c' e2 i by (cases "j = i") auto
  qed
qed

lemma paso_inv_fases:
  assumes p: "paso B tareas rm s s'"
    and inv: "inv_fases B tareas rm fs0 s"
    and ex: "\<forall>t \<in> set tareas. fs0 (fst t) \<noteq> None \<and> fst t \<noteq> rm"
  shows "inv_fases B tareas rm fs0 s'"
proof -
  from inv have len: "length (fases s) = length tareas"
    and arch: "\<forall>r. r \<noteq> rm \<longrightarrow> archivos s r = fs0 r"
    and lin: "\<forall>j < length tareas. \<forall>l. fases s ! j = Listo l \<or> fases s ! j = ConCandado l
             \<longrightarrow> l = linea_de B fs0 (tareas ! j)"
    and e1: "\<forall>j < length tareas. en_candado (fases s ! j) \<longleftrightarrow> candado s = Some j"
    unfolding inv_fases_def by blast+
  from p show ?thesis
  proof (cases rule: paso.cases)
    case (leer i ls media)
    have t: "tareas ! i \<in> set tareas" using leer(2) by simp
    with ex have "fst (tareas ! i) \<noteq> rm" by blast
    with arch have "archivos s (fst (tareas ! i)) = fs0 (fst (tareas ! i))" by blast
    with leer(5) have "leer_lineas fs0 (fst (tareas ! i)) = Inr ls"
      by (simp add: leer_lineas_def)
    then have l: "linea_de B fs0 (tareas ! i) = linea_media B media (snd (tareas ! i))"
      using leer(6) by (rule linea_de_leer)
    have ni: "candado s \<noteq> Some i" using e1 leer(2,4) by (auto simp: en_candado_def)
    show ?thesis
      by (rule inv_fases_cambio [OF inv leer(2), where X = "Listo (linea_media B media (snd (tareas ! i)))"])
         (simp_all add: leer(1) l ni en_candado_def)
  next
    case (falta i)
    have t: "tareas ! i \<in> set tareas" using falta(2) by simp
    with ex have "fst (tareas ! i) \<noteq> rm" "fs0 (fst (tareas ! i)) \<noteq> None" by blast+
    with arch have "archivos s (fst (tareas ! i)) \<noteq> None" by simp
    with falta(5) show ?thesis by (auto simp: leer_lineas_def)
  next
    case (adquirir i l)
    have i: "i < length tareas" using adquirir(2) len by simp
    have l: "l = linea_de B fs0 (tareas ! i)" using lin i adquirir(3) by blast
    show ?thesis
      by (rule inv_fases_cambio [OF inv i, where X = "ConCandado l"])
         (simp_all add: adquirir(1) adquirir(4) l en_candado_def)
  next
    case (abrir i l)
    have i: "i < length tareas" using abrir(2) len by simp
    have c: "candado s = Some i" using e1 i abrir(3) by (auto simp: en_candado_def)
    show ?thesis
      by (rule inv_fases_cambio [OF inv i, where X = "Escribe l"])
         (simp_all add: abrir(1) c en_candado_def contenido_apendar)
  next
    case (escribe i trozo r)
    have i: "i < length tareas" using escribe(2) len by simp
    have c: "candado s = Some i" using e1 i escribe(3) by (auto simp: en_candado_def)
    show ?thesis
      by (rule inv_fases_cambio [OF inv i, where X = "Escribe r"])
         (simp_all add: escribe(1) c en_candado_def contenido_apendar)
  next
    case (liberar i)
    have i: "i < length tareas" using liberar(2) len by simp
    have c: "candado s = Some i" using e1 i liberar(3) by (auto simp: en_candado_def)
    show ?thesis
      by (rule inv_fases_cambio [OF inv i, where X = Terminado])
         (auto simp: liberar(1) c en_candado_def)
  next
    case (abortar_abriendo i l)
    have i: "i < length tareas" using abortar_abriendo(2) len by simp
    have c: "candado s = Some i" using e1 i abortar_abriendo(3) by (auto simp: en_candado_def)
    show ?thesis
      by (rule inv_fases_cambio [OF inv i, where X = Abortado])
         (auto simp: abortar_abriendo(1) c en_candado_def)
  next
    case (abortar_escribiendo i r)
    have i: "i < length tareas" using abortar_escribiendo(2) len by simp
    have c: "candado s = Some i" using e1 i abortar_escribiendo(3) by (auto simp: en_candado_def)
    show ?thesis
      by (rule inv_fases_cambio [OF inv i, where X = Abortado])
         (auto simp: abortar_escribiendo(1) c en_candado_def)
  qed
qed


lemma inv_contenido_cambio:
  assumes ic: "inv_contenido B tareas rm fs0 s"
    and len: "length (fases s) = length tareas" and i: "i < length tareas"
    and f': "fases s' = (fases s)[i := X]"
    and viejo: "fases s ! i \<noteq> Terminado" "fases s ! i \<noteq> Abortado"
    and nuevo: "X \<noteq> Terminado"
    and escrito: "\<And>A p. contenido (archivos s) rm = A @ p \<Longrightarrow> parte_escrita B tareas fs0 s p
                   \<Longrightarrow> \<exists>p'. contenido (archivos s') rm = A @ p' \<and> parte_escrita B tareas fs0 s' p'"
  shows "inv_contenido B tareas rm fs0 s'"
  unfolding inv_contenido_def
proof (intro impI)
  assume sin: "\<forall>j < length tareas. fases s' ! j \<noteq> Abortado"
  have nth: "\<And>j. j < length tareas \<Longrightarrow> fases s' ! j = (if j = i then X else fases s ! j)"
    using f' len by (simp add: nth_list_update)
  have "\<forall>j < length tareas. fases s ! j \<noteq> Abortado"
  proof (intro allI impI)
    fix j assume j: "j < length tareas"
    show "fases s ! j \<noteq> Abortado"
      using sin j nth [OF j] viejo(2) by (cases "j = i") auto
  qed
  with ic obtain ord p where o: "distinct ord"
    "set ord = {j. j < length tareas \<and> fases s ! j = Terminado}"
    "contenido (archivos s) rm
       = contenido fs0 rm @ concat (map (\<lambda>i. linea_de B fs0 (tareas ! i)) ord) @ p"
    "parte_escrita B tareas fs0 s p"
    unfolding inv_contenido_def by blast
  let ?A = "contenido fs0 rm @ concat (map (\<lambda>i. linea_de B fs0 (tareas ! i)) ord)"
  from escrito [of ?A p] o(3,4) obtain p' where
    p': "contenido (archivos s') rm = ?A @ p'" "parte_escrita B tareas fs0 s' p'"
    by auto
  have "{j. j < length tareas \<and> fases s' ! j = Terminado}
          = {j. j < length tareas \<and> fases s ! j = Terminado}"
    using nth viejo(1) nuevo by (auto split: if_splits)
  with o(1,2) p' show "\<exists>ord p. distinct ord
         \<and> set ord = {i. i < length tareas \<and> fases s' ! i = Terminado}
         \<and> contenido (archivos s') rm
             = contenido fs0 rm @ concat (map (\<lambda>i. linea_de B fs0 (tareas ! i)) ord) @ p
         \<and> parte_escrita B tareas fs0 s' p"
    by auto
qed

lemma paso_inv_contenido:
  assumes p: "paso B tareas rm s s'"
    and inv: "inv_fases B tareas rm fs0 s"
    and ic: "inv_contenido B tareas rm fs0 s"
  shows "inv_contenido B tareas rm fs0 s'"
proof -
  from inv have len: "length (fases s) = length tareas"
    and lin: "\<forall>j < length tareas. \<forall>l. fases s ! j = Listo l \<or> fases s ! j = ConCandado l
             \<longrightarrow> l = linea_de B fs0 (tareas ! j)"
    and e1: "\<forall>j < length tareas. en_candado (fases s ! j) \<longleftrightarrow> candado s = Some j"
    unfolding inv_fases_def by blast+
  from p show ?thesis
  proof (cases rule: paso.cases)
    case (leer i ls media)
    have ni: "candado s \<noteq> Some i" using e1 leer(2,4) by (auto simp: en_candado_def)
    show ?thesis
    proof (rule inv_contenido_cambio [OF ic len leer(2), where X = "Listo (linea_media B media (snd (tareas ! i)))"])
      fix A p assume "contenido (archivos s) rm = A @ p" "parte_escrita B tareas fs0 s p"
      then show "\<exists>p'. contenido (archivos s') rm = A @ p' \<and> parte_escrita B tareas fs0 s' p'"
        using ni by (auto simp: leer(1) parte_escrita_def nth_list_update split: option.splits)
    qed (simp_all add: leer(1) leer(4))
  next
    case (falta i)
    show ?thesis
    proof (rule inv_contenido_cambio [OF ic len falta(2), where X = SinFichero])
      have ni: "candado s \<noteq> Some i" using e1 falta(2,4) by (auto simp: en_candado_def)
      fix A p assume "contenido (archivos s) rm = A @ p" "parte_escrita B tareas fs0 s p"
      then show "\<exists>p'. contenido (archivos s') rm = A @ p' \<and> parte_escrita B tareas fs0 s' p'"
        using ni by (auto simp: falta(1) parte_escrita_def nth_list_update split: option.splits)
    qed (simp_all add: falta(1) falta(4))
  next
    case (adquirir i l)
    have i: "i < length tareas" using adquirir(2) len by simp
    show ?thesis
    proof (rule inv_contenido_cambio [OF ic len i, where X = "ConCandado l"])
      fix A p assume "contenido (archivos s) rm = A @ p" "parte_escrita B tareas fs0 s p"
      then show "\<exists>p'. contenido (archivos s') rm = A @ p' \<and> parte_escrita B tareas fs0 s' p'"
        using adquirir(2,4) by (auto simp: adquirir(1) parte_escrita_def)
    qed (simp_all add: adquirir(1) adquirir(3))
  next
    case (abrir i l)
    have i: "i < length tareas" using abrir(2) len by simp
    have c: "candado s = Some i" using e1 i abrir(3) by (auto simp: en_candado_def)
    have l: "l = linea_de B fs0 (tareas ! i)" using lin i abrir(3) by blast
    show ?thesis
    proof (rule inv_contenido_cambio [OF ic len i, where X = "Escribe l"])
      fix A p assume "contenido (archivos s) rm = A @ p" "parte_escrita B tareas fs0 s p"
      then show "\<exists>p'. contenido (archivos s') rm = A @ p' \<and> parte_escrita B tareas fs0 s' p'"
        using abrir(2,3) c l by (auto simp: abrir(1) parte_escrita_def contenido_apendar)
    qed (simp_all add: abrir(1) abrir(3))
  next
    case (escribe i trozo r)
    have i: "i < length tareas" using escribe(2) len by simp
    have c: "candado s = Some i" using e1 i escribe(3) by (auto simp: en_candado_def)
    show ?thesis
    proof (rule inv_contenido_cambio [OF ic len i, where X = "Escribe r"])
      fix A p assume a: "contenido (archivos s) rm = A @ p" "parte_escrita B tareas fs0 s p"
      have "contenido (archivos s') rm = A @ (p @ trozo)"
        using a(1) by (simp add: escribe(1) contenido_apendar)
      moreover have "parte_escrita B tareas fs0 s' (p @ trozo)"
        using a(2) escribe(2,3) c by (simp add: escribe(1) parte_escrita_def)
      ultimately show "\<exists>p'. contenido (archivos s') rm = A @ p' \<and> parte_escrita B tareas fs0 s' p'"
        by blast
    qed (simp_all add: escribe(1) escribe(3))
  next
    case (liberar i)
    have i: "i < length tareas" using liberar(2) len by simp
    have c: "candado s = Some i" using e1 i liberar(3) by (auto simp: en_candado_def)
    have nth: "\<And>j. j < length tareas \<Longrightarrow> fases s' ! j = (if j = i then Terminado else fases s ! j)"
      using len by (simp add: liberar(1) nth_list_update)
    show ?thesis
      unfolding inv_contenido_def
    proof (intro impI)
      assume sin: "\<forall>j < length tareas. fases s' ! j \<noteq> Abortado"
      have "\<forall>j < length tareas. fases s ! j \<noteq> Abortado"
      proof (intro allI impI)
        fix j assume j: "j < length tareas"
        show "fases s ! j \<noteq> Abortado"
          using sin j nth [OF j] liberar(3) by (cases "j = i") auto
      qed
      with ic obtain ord p where o: "distinct ord"
        "set ord = {j. j < length tareas \<and> fases s ! j = Terminado}"
        "contenido (archivos s) rm
           = contenido fs0 rm @ concat (map (\<lambda>i. linea_de B fs0 (tareas ! i)) ord) @ p"
        "parte_escrita B tareas fs0 s p"
        unfolding inv_contenido_def by blast
      from o(4) c liberar(3) have p: "p = linea_de B fs0 (tareas ! i)"
        by (simp add: parte_escrita_def)
      have ni: "i \<notin> set ord" using o(2) liberar(3) by simp
      have 1: "distinct (ord @ [i])" using o(1) ni by simp
      have 2: "set (ord @ [i]) = {j. j < length tareas \<and> fases s' ! j = Terminado}"
        using o(2) nth i by auto
      have 3: "contenido (archivos s') rm
           = contenido fs0 rm @ concat (map (\<lambda>i. linea_de B fs0 (tareas ! i)) (ord @ [i])) @ []"
        using o(3) p by (simp add: liberar(1))
      have 4: "parte_escrita B tareas fs0 s' []"
        by (simp add: liberar(1) parte_escrita_def)
      from 1 2 3 4 show "\<exists>ord p. distinct ord
         \<and> set ord = {i. i < length tareas \<and> fases s' ! i = Terminado}
         \<and> contenido (archivos s') rm
             = contenido fs0 rm @ concat (map (\<lambda>i. linea_de B fs0 (tareas ! i)) ord) @ p
         \<and> parte_escrita B tareas fs0 s' p"
        by blast
    qed
  next
    case (abortar_abriendo i l)
    have i: "i < length tareas" using abortar_abriendo(2) len by simp
    then have "fases s' ! i = Abortado" using len by (simp add: abortar_abriendo(1))
    with i show ?thesis unfolding inv_contenido_def by blast
  next
    case (abortar_escribiendo i r)
    have i: "i < length tareas" using abortar_escribiendo(2) len by simp
    then have "fases s' ! i = Abortado" using len by (simp add: abortar_escribiendo(1))
    with i show ?thesis unfolding inv_contenido_def by blast
  qed
qed


lemma inicial_inv:
  "inv_fases B tareas rm fs0 (inicial fs0 (length tareas))"
  "inv_contenido B tareas rm fs0 (inicial fs0 (length tareas))"
proof -
  show "inv_fases B tareas rm fs0 (inicial fs0 (length tareas))"
    by (simp add: inv_fases_def inicial_def en_candado_def)
  have "distinct ([] :: nat list) \<and> set [] = {i. i < length tareas \<and> replicate (length tareas) Inicio ! i = Terminado}"
    by auto
  then show "inv_contenido B tareas rm fs0 (inicial fs0 (length tareas))"
    unfolding inv_contenido_def
    by (intro impI exI [of _ "[]"]) (simp add: inicial_def parte_escrita_def)
qed

lemma alcanzable_inv:
  assumes run: "(paso B tareas rm)\<^sup>*\<^sup>* (inicial fs0 (length tareas)) s"
    and ex: "\<forall>t \<in> set tareas. fs0 (fst t) \<noteq> None \<and> fst t \<noteq> rm"
  shows "inv_fases B tareas rm fs0 s \<and> inv_contenido B tareas rm fs0 s"
  using run
proof (induction rule: rtranclp_induct)
  case base
  show ?case using inicial_inv by blast
next
  case (step s s')
  then show ?case
    using paso_inv_fases [OF step.hyps(2) _ ex] paso_inv_contenido [OF step.hyps(2)] by blast
qed

lemma fase_casos:
  "f = Inicio \<or> (\<exists>l. f = Listo l) \<or> (\<exists>l. f = ConCandado l) \<or> (\<exists>r. f = Escribe r) \<or> ha_vuelto f"
  by (cases f) (simp_all add: ha_vuelto_def)

lemma propio_puede:
  assumes len: "length (fases s) = length tareas" and i: "i < length tareas"
    and f: "fases s ! i = Inicio \<or> en_candado (fases s ! i)"
  shows "\<exists>s'. paso B tareas rm s s'"
proof -
  have il: "i < length (fases s)" using len i by simp
  from f consider "fases s ! i = Inicio" | l where "fases s ! i = ConCandado l"
    | "fases s ! i = Escribe []" | c r where "fases s ! i = Escribe (c # r)"
    by (auto simp: en_candado_def) (metis list.exhaust)
  then show ?thesis
  proof cases
    case 1
    show ?thesis
    proof (cases "archivos s (fst (tareas ! i))")
      case None
      then have "leer_lineas (archivos s) (fst (tareas ! i)) = Inl FileNotFoundError"
        by (simp add: leer_lineas_def)
      from paso.falta [OF i il 1 this] show ?thesis by blast
    next
      case (Some texto)
      then have l: "leer_lineas (archivos s) (fst (tareas ! i)) = Inr (lineas (traducir_nl texto))"
        by (simp add: leer_lineas_def)
      obtain m where "media_notas B (leer_notas B (lineas (traducir_nl texto)) []) = Inr m"
        using media_notas_total by blast
      from paso.leer [OF i il 1 l this] show ?thesis by blast
    qed
  next
    case 2
    from paso.abrir [OF il 2] show ?thesis by blast
  next
    case 3
    from paso.liberar [OF il 3] show ?thesis by blast
  next
    case 4
    then have "fases s ! i = Escribe ((c # r) @ [])" by simp
    from paso.escribe [OF il this] show ?thesis by blast
  qed
qed

lemma progreso:
  assumes inv: "inv_fases B tareas rm fs0 s"
    and no: "\<not> (\<forall>i < length tareas. ha_vuelto (fases s ! i))"
  shows "\<exists>s'. paso B tareas rm s s'"
proof -
  from inv have len: "length (fases s) = length tareas"
    and e1: "\<forall>j < length tareas. en_candado (fases s ! j) \<longleftrightarrow> candado s = Some j"
    and e2: "\<forall>j. candado s = Some j \<longrightarrow> j < length tareas"
    unfolding inv_fases_def by blast+
  from no obtain i where i: "i < length tareas" "\<not> ha_vuelto (fases s ! i)" by blast
  from fase_casos [of "fases s ! i"] i(2)
  consider "fases s ! i = Inicio \<or> en_candado (fases s ! i)" | l where "fases s ! i = Listo l"
    by (auto simp: en_candado_def)
  then show ?thesis
  proof cases
    case 1
    then show ?thesis using propio_puede [OF len i(1)] by blast
  next
    case 2
    show ?thesis
    proof (cases "candado s")
      case None
      have "i < length (fases s)" using len i(1) by simp
      from paso.adquirir [OF this 2 None] show ?thesis by blast
    next
      case (Some j)
      with e1 e2 have "j < length tareas" "en_candado (fases s ! j)" by auto
      then show ?thesis using propio_puede [OF len] by blast
    qed
  qed
qed


lemma linea_de_forma:
  assumes "fs0 (fst t) \<noteq> None"
  shows "\<exists>media. linea_de B fs0 t = fmt_2f B media @ '' '' @ snd t @ [CHR 0x0A]"
proof -
  from assms obtain texto where "fs0 (fst t) = Some texto" by blast
  then have l: "leer_lineas fs0 (fst t) = Inr (lineas (traducir_nl texto))"
    by (simp add: leer_lineas_def)
  obtain m where "media_notas B (leer_notas B (lineas (traducir_nl texto)) []) = Inr m"
    using media_notas_total by blast
  with l have "linea_de B fs0 t = linea_media B m (snd t)" by (rule linea_de_leer)
  then show ?thesis by (auto simp: linea_media_def)
qed

lemma pendientes_cambio:
  assumes len: "length (fases s) = length tareas" and i: "i < length tareas"
    and f': "fases s' = (fases s)[i := X]"
    and menos: "trabajo (length (linea_de B fs0 (tareas ! i))) X
                  < trabajo (length (linea_de B fs0 (tareas ! i))) (fases s ! i)"
  shows "pendientes B tareas fs0 s' < pendientes B tareas fs0 s"
  unfolding pendientes_def
proof (rule sum_strict_mono_ex1)
  show "finite {..<length tareas}" by simp
  show "\<forall>j \<in> {..<length tareas}.
          trabajo (length (linea_de B fs0 (tareas ! j))) (fases s' ! j)
            \<le> trabajo (length (linea_de B fs0 (tareas ! j))) (fases s ! j)"
  proof
    fix j assume "j \<in> {..<length tareas}"
    then show "trabajo (length (linea_de B fs0 (tareas ! j))) (fases s' ! j)
            \<le> trabajo (length (linea_de B fs0 (tareas ! j))) (fases s ! j)"
      using f' len menos by (cases "j = i") (simp_all add: nth_list_update)
  qed
  show "\<exists>j \<in> {..<length tareas}.
          trabajo (length (linea_de B fs0 (tareas ! j))) (fases s' ! j)
            < trabajo (length (linea_de B fs0 (tareas ! j))) (fases s ! j)"
    using f' len menos i by (auto simp: nth_list_update intro!: bexI [of _ i])
qed

lemma paso_pendientes:
  assumes p: "paso B tareas rm s s'"
    and inv: "inv_fases B tareas rm fs0 s"
    and ex: "\<forall>t \<in> set tareas. fs0 (fst t) \<noteq> None \<and> fst t \<noteq> rm"
  shows "pendientes B tareas fs0 s' < pendientes B tareas fs0 s"
proof -
  from inv have len: "length (fases s) = length tareas"
    and arch: "\<forall>r. r \<noteq> rm \<longrightarrow> archivos s r = fs0 r"
    and lin: "\<forall>j < length tareas. \<forall>l. fases s ! j = Listo l \<or> fases s ! j = ConCandado l
             \<longrightarrow> l = linea_de B fs0 (tareas ! j)"
    unfolding inv_fases_def by blast+
  from p show ?thesis
  proof (cases rule: paso.cases)
    case (leer i ls media)
    have t: "tareas ! i \<in> set tareas" using leer(2) by simp
    with ex have "fst (tareas ! i) \<noteq> rm" by blast
    with arch have "archivos s (fst (tareas ! i)) = fs0 (fst (tareas ! i))" by blast
    with leer(5) have "leer_lineas fs0 (fst (tareas ! i)) = Inr ls"
      by (simp add: leer_lineas_def)
    then have l: "linea_de B fs0 (tareas ! i) = linea_media B media (snd (tareas ! i))"
      using leer(6) by (rule linea_de_leer)
    show ?thesis
      by (rule pendientes_cambio [OF len leer(2), where X = "Listo (linea_media B media (snd (tareas ! i)))"])
         (simp_all add: leer(1) leer(4) l trabajo_def)
  next
    case (falta i)
    show ?thesis
      by (rule pendientes_cambio [OF len falta(2), where X = SinFichero])
         (simp_all add: falta(1) falta(4) trabajo_def)
  next
    case (adquirir i l)
    have i: "i < length tareas" using adquirir(2) len by simp
    show ?thesis
      by (rule pendientes_cambio [OF len i, where X = "ConCandado l"])
         (simp_all add: adquirir(1) adquirir(3) trabajo_def)
  next
    case (abrir i l)
    have i: "i < length tareas" using abrir(2) len by simp
    show ?thesis
      by (rule pendientes_cambio [OF len i, where X = "Escribe l"])
         (simp_all add: abrir(1) abrir(3) trabajo_def)
  next
    case (escribe i trozo r)
    have i: "i < length tareas" using escribe(2) len by simp
    show ?thesis
      by (rule pendientes_cambio [OF len i, where X = "Escribe r"])
         (simp_all add: escribe(1) escribe(3) escribe(4) trabajo_def)
  next
    case (liberar i)
    have i: "i < length tareas" using liberar(2) len by simp
    show ?thesis
      by (rule pendientes_cambio [OF len i, where X = Terminado])
         (simp_all add: liberar(1) liberar(3) trabajo_def)
  next
    case (abortar_abriendo i l)
    have i: "i < length tareas" using abortar_abriendo(2) len by simp
    show ?thesis
      by (rule pendientes_cambio [OF len i, where X = Abortado])
         (simp_all add: abortar_abriendo(1) abortar_abriendo(3) trabajo_def)
  next
    case (abortar_escribiendo i r)
    have i: "i < length tareas" using abortar_escribiendo(2) len by simp
    show ?thesis
      by (rule pendientes_cambio [OF len i, where X = Abortado])
         (simp_all add: abortar_escribiendo(1) abortar_escribiendo(3) trabajo_def)
  qed
qed

text \<open>
  C6. Let M processes run \<open>calcular_media_y_apendar\<close> at once, each with an input
  file that exists and is not the file of means, sharing one lock, and let \<open>s\<close> be a
  state that some schedule reaches. Then a process that has returned does not hold the
  lock, whether it returned normally or by an exception inside \<open>with lock\<close>; when
  all have returned the lock is free; and when all have returned and none was aborted,
  the file of means is what it was at the start followed by the M lines of the M
  processes, whole and one after another, in some order. Each line is a mean with two
  decimals, a space, the name of the student and the end of line. Moreover no schedule
  gets stuck or runs for ever: while some process has not returned a step is possible,
  and every step makes what is left to do smaller.
\<close>

theorem candado_medias:
  assumes ex: "\<forall>t \<in> set tareas. fs0 (fst t) \<noteq> None \<and> fst t \<noteq> rm"
    and run: "(paso B tareas rm)\<^sup>*\<^sup>* (inicial fs0 (length tareas)) s"
  shows "(\<forall>i < length tareas. ha_vuelto (fases s ! i) \<longrightarrow> candado s \<noteq> Some i)
     \<and> ((\<forall>i < length tareas. ha_vuelto (fases s ! i)) \<longrightarrow> candado s = None)
     \<and> ((\<forall>i < length tareas. ha_vuelto (fases s ! i) \<and> fases s ! i \<noteq> Abortado) \<longrightarrow>
          (\<exists>ord. mset ord = mset [0..<length tareas]
             \<and> contenido (archivos s) rm
                 = contenido fs0 rm @ concat (map (\<lambda>i. linea_de B fs0 (tareas ! i)) ord)))
     \<and> (\<forall>i < length tareas. \<exists>media.
            linea_de B fs0 (tareas ! i) = fmt_2f B media @ '' '' @ snd (tareas ! i) @ [CHR 0x0A])
     \<and> (\<not> (\<forall>i < length tareas. ha_vuelto (fases s ! i)) \<longrightarrow> (\<exists>s'. paso B tareas rm s s'))
     \<and> (\<forall>s'. paso B tareas rm s s' \<longrightarrow> pendientes B tareas fs0 s' < pendientes B tareas fs0 s)"
proof -
  from alcanzable_inv [OF run ex]
  have inv: "inv_fases B tareas rm fs0 s" and ic: "inv_contenido B tareas rm fs0 s" by blast+
  from inv have sinf: "\<forall>i < length tareas. fases s ! i \<noteq> SinFichero"
    and e1: "\<forall>j < length tareas. en_candado (fases s ! j) \<longleftrightarrow> candado s = Some j"
    and e2: "\<forall>j. candado s = Some j \<longrightarrow> j < length tareas"
    unfolding inv_fases_def by blast+
  have fuera: "\<And>f. ha_vuelto f \<Longrightarrow> \<not> en_candado f"
    by (auto simp: ha_vuelto_def en_candado_def)
  have 1: "\<forall>i < length tareas. ha_vuelto (fases s ! i) \<longrightarrow> candado s \<noteq> Some i"
    using e1 fuera by blast
  have 2: "(\<forall>i < length tareas. ha_vuelto (fases s ! i)) \<longrightarrow> candado s = None"
  proof
    assume todos: "\<forall>i < length tareas. ha_vuelto (fases s ! i)"
    show "candado s = None"
    proof (cases "candado s")
      case (Some j)
      with e2 have "j < length tareas" by blast
      with todos 1 Some show ?thesis by blast
    qed simp
  qed
  have 3: "(\<forall>i < length tareas. ha_vuelto (fases s ! i) \<and> fases s ! i \<noteq> Abortado) \<longrightarrow>
          (\<exists>ord. mset ord = mset [0..<length tareas]
             \<and> contenido (archivos s) rm
                 = contenido fs0 rm @ concat (map (\<lambda>i. linea_de B fs0 (tareas ! i)) ord))"
  proof
    assume fin: "\<forall>i < length tareas. ha_vuelto (fases s ! i) \<and> fases s ! i \<noteq> Abortado"
    then have acabados: "\<forall>i < length tareas. fases s ! i = Terminado"
      using sinf by (auto simp: ha_vuelto_def)
    from fin 2 have c: "candado s = None" by blast
    from fin ic obtain ord p where o: "distinct ord"
      "set ord = {j. j < length tareas \<and> fases s ! j = Terminado}"
      "contenido (archivos s) rm
         = contenido fs0 rm @ concat (map (\<lambda>i. linea_de B fs0 (tareas ! i)) ord) @ p"
      "parte_escrita B tareas fs0 s p"
      unfolding inv_contenido_def by blast
    from o(4) c have p: "p = []" by (simp add: parte_escrita_def)
    from o(2) acabados have "set ord = set [0..<length tareas]" by auto
    with o(1) have "mset ord = mset [0..<length tareas]"
      using set_eq_iff_mset_eq_distinct [of ord "[0..<length tareas]"] distinct_upt by blast
    with o(3) p show "\<exists>ord. mset ord = mset [0..<length tareas]
             \<and> contenido (archivos s) rm
                 = contenido fs0 rm @ concat (map (\<lambda>i. linea_de B fs0 (tareas ! i)) ord)"
      by auto
  qed
  have 4: "\<forall>i < length tareas. \<exists>media.
            linea_de B fs0 (tareas ! i) = fmt_2f B media @ '' '' @ snd (tareas ! i) @ [CHR 0x0A]"
    using ex linea_de_forma by (metis nth_mem)
  have 5: "\<not> (\<forall>i < length tareas. ha_vuelto (fases s ! i)) \<longrightarrow> (\<exists>s'. paso B tareas rm s s')"
    using progreso [OF inv] by blast
  have 6: "\<forall>s'. paso B tareas rm s s' \<longrightarrow> pendientes B tareas fs0 s' < pendientes B tareas fs0 s"
    using paso_pendientes [OF _ inv ex] by blast
  from 1 2 3 4 5 6 show ?thesis by blast
qed

theorem candado_medias_witness:
  "(paso builtins_ref [(''a.txt'', ''Ana''), (''b.txt'', ''Bea'')] ''medias.txt'')\<^sup>*\<^sup>*
      (inicial [''a.txt'' \<mapsto> ''7\<newline>8\<newline>'', ''b.txt'' \<mapsto> ''5\<newline>''] 2)
      \<lparr>candado = None,
       archivos = [''a.txt'' \<mapsto> ''7\<newline>8\<newline>'', ''b.txt'' \<mapsto> ''5\<newline>'',
                   ''medias.txt'' \<mapsto> ''5.00 Bea\<newline>7.50 Ana\<newline>''],
       fases = [Terminado, Terminado]\<rparr>
   \<and> (\<exists>ord. mset ord = mset [0..<2]
         \<and> ''5.00 Bea\<newline>7.50 Ana\<newline>''
             = concat (map (\<lambda>i. linea_de builtins_ref
                                    [''a.txt'' \<mapsto> ''7\<newline>8\<newline>'', ''b.txt'' \<mapsto> ''5\<newline>'']
                                    ([(''a.txt'', ''Ana''), (''b.txt'', ''Bea'')] ! i)) ord))"
proof -
  let ?T = "[(''a.txt'', ''Ana''), (''b.txt'', ''Bea'')]"
  let ?fs = "[''a.txt'' \<mapsto> ''7\<newline>8\<newline>'', ''b.txt'' \<mapsto> ''5\<newline>'']"
  let ?rm = "''medias.txt''"
  let ?la = "''7.50 Ana\<newline>''" and ?lb = "''5.00 Bea\<newline>''"
  let ?P = "paso builtins_ref ?T ?rm"
  let ?a1 = "apendar ?fs ?rm []"
  let ?a2 = "apendar ?a1 ?rm ''5.00''"
  let ?a3 = "apendar ?a2 ?rm '' Bea\<newline>''"
  let ?a4 = "apendar ?a3 ?rm []"
  let ?a5 = "apendar ?a4 ?rm ?la"
  let ?s0 = "\<lparr>candado = None, archivos = ?fs, fases = [Inicio, Inicio]\<rparr>"
  let ?s1 = "\<lparr>candado = None, archivos = ?fs, fases = [Listo ?la, Inicio]\<rparr>"
  let ?s2 = "\<lparr>candado = None, archivos = ?fs, fases = [Listo ?la, Listo ?lb]\<rparr>"
  let ?s3 = "\<lparr>candado = Some 1, archivos = ?fs, fases = [Listo ?la, ConCandado ?lb]\<rparr>"
  let ?s4 = "\<lparr>candado = Some 1, archivos = ?a1, fases = [Listo ?la, Escribe ?lb]\<rparr>"
  let ?s5 = "\<lparr>candado = Some 1, archivos = ?a2, fases = [Listo ?la, Escribe '' Bea\<newline>'']\<rparr>"
  let ?s6 = "\<lparr>candado = Some 1, archivos = ?a3, fases = [Listo ?la, Escribe []]\<rparr>"
  let ?s7 = "\<lparr>candado = None, archivos = ?a3, fases = [Listo ?la, Terminado]\<rparr>"
  let ?s8 = "\<lparr>candado = Some 0, archivos = ?a3, fases = [ConCandado ?la, Terminado]\<rparr>"
  let ?s9 = "\<lparr>candado = Some 0, archivos = ?a4, fases = [Escribe ?la, Terminado]\<rparr>"
  let ?s10 = "\<lparr>candado = Some 0, archivos = ?a5, fases = [Escribe [], Terminado]\<rparr>"
  let ?s11 = "\<lparr>candado = None, archivos = ?a5, fases = [Terminado, Terminado]\<rparr>"
  have la: "leer_lineas ?fs ''a.txt'' = Inr [''7\<newline>'', ''8\<newline>'']"
    and lb: "leer_lineas ?fs ''b.txt'' = Inr [''5\<newline>'']"
    by (simp_all add: leer_lineas_def)
  have ma: "media_notas builtins_ref (leer_notas builtins_ref [''7\<newline>'', ''8\<newline>''] []) = Inr (Fin 7.5)"
    and mb: "media_notas builtins_ref (leer_notas builtins_ref [''5\<newline>''] []) = Inr (Fin 5)"
    by code_simp+
  have fa: "linea_media builtins_ref (Fin 7.5) ''Ana'' = ?la"
    and fb: "linea_media builtins_ref (Fin 5) ''Bea'' = ?lb"
    by code_simp+
  have p1: "?P ?s0 ?s1"
    using paso.leer [of 0 ?T ?s0 "[''7\<newline>'', ''8\<newline>'']" builtins_ref "Fin 7.5" ?rm] la ma fa
    by simp
  have p2: "?P ?s1 ?s2"
    using paso.leer [of 1 ?T ?s1 "[''5\<newline>'']" builtins_ref "Fin 5" ?rm] lb mb fb
    by simp
  have p3: "?P ?s2 ?s3"
    using paso.adquirir [of 1 ?s2 ?lb builtins_ref ?T ?rm] by simp
  have p4: "?P ?s3 ?s4"
    using paso.abrir [of 1 ?s3 ?lb builtins_ref ?T ?rm] by simp
  have p5: "?P ?s4 ?s5"
    using paso.escribe [of 1 ?s4 "''5.00''" "'' Bea\<newline>''" builtins_ref ?T ?rm] by simp
  have p6: "?P ?s5 ?s6"
    using paso.escribe [of 1 ?s5 "'' Bea\<newline>''" "[]" builtins_ref ?T ?rm] by simp
  have p7: "?P ?s6 ?s7"
    using paso.liberar [of 1 ?s6 builtins_ref ?T ?rm] by simp
  have p8: "?P ?s7 ?s8"
    using paso.adquirir [of 0 ?s7 ?la builtins_ref ?T ?rm] by simp
  have p9: "?P ?s8 ?s9"
    using paso.abrir [of 0 ?s8 ?la builtins_ref ?T ?rm] by simp
  have p10: "?P ?s9 ?s10"
    using paso.escribe [of 0 ?s9 ?la "[]" builtins_ref ?T ?rm] by simp
  have p11: "?P ?s10 ?s11"
    using paso.liberar [of 0 ?s10 builtins_ref ?T ?rm] by simp
  note mas = rtranclp.rtrancl_into_rtrancl
  have "?P\<^sup>*\<^sup>* ?s0 ?s1" using p1 by (rule r_into_rtranclp)
  then have "?P\<^sup>*\<^sup>* ?s0 ?s2" using p2 by (rule mas)
  then have "?P\<^sup>*\<^sup>* ?s0 ?s3" using p3 by (rule mas)
  then have "?P\<^sup>*\<^sup>* ?s0 ?s4" using p4 by (rule mas)
  then have "?P\<^sup>*\<^sup>* ?s0 ?s5" using p5 by (rule mas)
  then have "?P\<^sup>*\<^sup>* ?s0 ?s6" using p6 by (rule mas)
  then have "?P\<^sup>*\<^sup>* ?s0 ?s7" using p7 by (rule mas)
  then have "?P\<^sup>*\<^sup>* ?s0 ?s8" using p8 by (rule mas)
  then have "?P\<^sup>*\<^sup>* ?s0 ?s9" using p9 by (rule mas)
  then have "?P\<^sup>*\<^sup>* ?s0 ?s10" using p10 by (rule mas)
  then have run: "?P\<^sup>*\<^sup>* ?s0 ?s11" using p11 by (rule mas)
  have s0: "inicial ?fs (length ?T) = ?s0"
    by (simp add: inicial_def numeral_2_eq_2)
  have ex: "\<forall>t \<in> set ?T. ?fs (fst t) \<noteq> None \<and> fst t \<noteq> ?rm"
    by simp
  have fin: "\<forall>i < length ?T. ha_vuelto (fases ?s11 ! i) \<and> fases ?s11 ! i \<noteq> Abortado"
    by (simp add: ha_vuelto_def less_Suc_eq)
  have a5: "?a5 = ?fs(''medias.txt'' \<mapsto> ''5.00 Bea\<newline>7.50 Ana\<newline>'')"
    by (simp add: apendar_def)
  have c5: "contenido ?a5 ?rm = ''5.00 Bea\<newline>7.50 Ana\<newline>''"
    by (simp add: apendar_def contenido_def)
  have c0: "contenido ?fs ?rm = []"
    by (simp add: contenido_def)
  from run s0 have run': "?P\<^sup>*\<^sup>* (inicial ?fs (length ?T)) ?s11" by simp
  from candado_medias [OF ex run'] fin
  obtain ord where o1: "mset ord = mset [0..<length ?T]"
    and o2: "contenido (archivos ?s11) ?rm
             = contenido ?fs ?rm @ concat (map (\<lambda>i. linea_de builtins_ref ?fs (?T ! i)) ord)"
    by blast
  have l2: "length ?T = 2" by simp
  have o1': "mset ord = mset [0..<2]" using o1 unfolding l2 .
  have o2': "''5.00 Bea\<newline>7.50 Ana\<newline>''
             = concat (map (\<lambda>i. linea_de builtins_ref ?fs (?T ! i)) ord)"
    using o2 c5 c0 by simp
  have 2: "\<exists>ord. mset ord = mset [0..<2]
         \<and> ''5.00 Bea\<newline>7.50 Ana\<newline>''
             = concat (map (\<lambda>i. linea_de builtins_ref ?fs (?T ! i)) ord)"
    by (intro exI conjI) (rule o1', rule o2')
  have 1: "?P\<^sup>*\<^sup>* (inicial ?fs 2) \<lparr>candado = None,
       archivos = ?fs(''medias.txt'' \<mapsto> ''5.00 Bea\<newline>7.50 Ana\<newline>''),
       fases = [Terminado, Terminado]\<rparr>"
    using run' unfolding l2 a5 .
  from 1 2 show ?thesis by (intro conjI)
qed

end
